theory Spec2Isabelle
  imports Main "HOL-Library.AList"
begin

section \<open>Time values and calendar arithmetic of the JavaScript run time\<close>

text \<open>
  The dashboard computes with JavaScript \<open>Date\<close> objects. A \<open>Date\<close> holds a time value:
  a whole number of milliseconds since 1970-01-01T00:00:00Z, or \<open>NaN\<close> (an invalid date).
  The functions of this section are the abstract operations of the ECMAScript standard
  (section "Date Objects"), under the standard's names.
\<close>

type_synonym Date = "int option"
  \<comment> \<open>\<open>None\<close> is the time value \<open>NaN\<close>\<close>

type_synonym Number = "int option"
  \<comment> \<open>a number read off a \<open>Date\<close>: an integer, or \<open>NaN\<close>\<close>

definition msPerDay :: int where
  "msPerDay = 86400000"

definition Day :: "int \<Rightarrow> int" where
  "Day t = t div msPerDay"

definition TimeWithinDay :: "int \<Rightarrow> int" where
  "TimeWithinDay t = t mod msPerDay"

definition DayFromYear :: "int \<Rightarrow> int" where
  "DayFromYear y =
     365 * (y - 1970) + (y - 1969) div 4 - (y - 1901) div 100 + (y - 1601) div 400"

definition DaysInYear :: "int \<Rightarrow> int" where
  "DaysInYear y =
     (if y mod 4 \<noteq> 0 then 365 else if y mod 100 \<noteq> 0 then 366
      else if y mod 400 \<noteq> 0 then 365 else 366)"

definition YearFromDay :: "int \<Rightarrow> int" where
  \<comment> \<open>the largest year whose first day is not after day \<open>d\<close>: an estimate from the mean
      length of a year, moved by one where it is off\<close>
  "YearFromDay d =
     (let y = 1970 + (400 * d) div 146097
      in if d < DayFromYear y then y - 1
         else if DayFromYear (y + 1) \<le> d then y + 1
         else y)"

definition YearFromTime :: "int \<Rightarrow> int" where
  "YearFromTime t = YearFromDay (Day t)"

definition InLeapYear :: "int \<Rightarrow> int" where
  "InLeapYear t = (if DaysInYear (YearFromTime t) = 366 then 1 else 0)"

definition DayWithinYear :: "int \<Rightarrow> int" where
  "DayWithinYear t = Day t - DayFromYear (YearFromTime t)"

definition DaysBeforeMonth :: "int \<Rightarrow> int \<Rightarrow> int" where
  \<comment> \<open>days of the year before month \<open>m\<close> (0 = January); \<open>l\<close> is 1 in a leap year\<close>
  "DaysBeforeMonth l m =
     (if m = 0 then 0 else if m = 1 then 31 else if m = 2 then 59 + l
      else if m = 3 then 90 + l else if m = 4 then 120 + l else if m = 5 then 151 + l
      else if m = 6 then 181 + l else if m = 7 then 212 + l else if m = 8 then 243 + l
      else if m = 9 then 273 + l else if m = 10 then 304 + l else 334 + l)"

definition MonthFromTime :: "int \<Rightarrow> int" where
  "MonthFromTime t =
     (let d = DayWithinYear t; l = InLeapYear t
      in if d < 31 then 0 else if d < 59 + l then 1 else if d < 90 + l then 2
         else if d < 120 + l then 3 else if d < 151 + l then 4 else if d < 181 + l then 5
         else if d < 212 + l then 6 else if d < 243 + l then 7 else if d < 273 + l then 8
         else if d < 304 + l then 9 else if d < 334 + l then 10 else 11)"

definition DateFromTime :: "int \<Rightarrow> int" where
  "DateFromTime t =
     DayWithinYear t - DaysBeforeMonth (InLeapYear t) (MonthFromTime t) + 1"

definition MakeTime :: "int \<Rightarrow> int \<Rightarrow> int \<Rightarrow> int \<Rightarrow> int" where
  "MakeTime h m s milli = h * 3600000 + m * 60000 + s * 1000 + milli"

definition MakeDay :: "int \<Rightarrow> int \<Rightarrow> int \<Rightarrow> int" where
  "MakeDay year month date =
     (let ym = year + month div 12; mn = month mod 12
      in DayFromYear ym + DaysBeforeMonth (if DaysInYear ym = 366 then 1 else 0) mn
         + date - 1)"

definition MakeDate :: "int \<Rightarrow> int \<Rightarrow> int" where
  "MakeDate day time = day * msPerDay + time"

definition TimeClip :: "int \<Rightarrow> Date" where
  "TimeClip t = (if \<bar>t\<bar> > 8640000000000000 then None else Some t)"


section \<open>The run time the component executes in\<close>

text \<open>
  What the code reads from its environment is a parameter of the model:
  \<^item> \<open>parse\<close>: \<open>Date.parse\<close>, from a string to a time value or \<open>NaN\<close>. The standard fixes
    it on ISO strings (a date-only string \<open>YYYY-MM-DD\<close> is midnight UTC of that day) and
    leaves every other format to the implementation.
  \<^item> \<open>LocalTZA\<close>: the offset of local time from UTC, in milliseconds (19800000 in India).
    It is taken as constant: daylight saving changes are not modelled.
  \<^item> \<open>now\<close>: the reading of the clock. One render reads the clock several times; the
    readings are taken to be the same instant.
  \<^item> \<open>monthYear\<close>: the text \<open>toLocaleString('default', {month: 'short', year: 'numeric'})\<close>
    gives for a valid time value; it depends on the default locale.
\<close>

record runtime =
  parse :: "string \<Rightarrow> int option"
  LocalTZA :: int
  now :: int
  monthYear :: "int \<Rightarrow> string"

definition LocalTime :: "runtime \<Rightarrow> int \<Rightarrow> int" where
  "LocalTime rt t = t + LocalTZA rt"

definition UTC :: "runtime \<Rightarrow> int \<Rightarrow> int" where
  "UTC rt t = t - LocalTZA rt"

subsection \<open>The \<open>Date\<close> constructor\<close>

definition Date_now :: "runtime \<Rightarrow> Date" where
  \<comment> \<open>\<open>new Date()\<close>\<close>
  "Date_now rt = Some (now rt)"

definition Date_string :: "runtime \<Rightarrow> string \<Rightarrow> Date" where
  \<comment> \<open>\<open>new Date(s)\<close> for a string \<open>s\<close>\<close>
  "Date_string rt s = (case parse rt s of None \<Rightarrow> None | Some t \<Rightarrow> TimeClip t)"

definition Date_value :: "runtime \<Rightarrow> string option \<Rightarrow> Date" where
  \<comment> \<open>\<open>new Date(v)\<close> for a property that may be absent: \<open>undefined\<close> converts to \<open>NaN\<close>\<close>
  "Date_value rt v = (case v of None \<Rightarrow> None | Some s \<Rightarrow> Date_string rt s)"

definition Date_year_month :: "runtime \<Rightarrow> Number \<Rightarrow> Number \<Rightarrow> Date" where
  \<comment> \<open>\<open>new Date(year, month)\<close>: local midnight of the first of the month; a year from 0
      to 99 stands for 1900 to 1999\<close>
  "Date_year_month rt year month =
     (case year of None \<Rightarrow> None | Some y \<Rightarrow>
      (case month of None \<Rightarrow> None | Some m \<Rightarrow>
         (let yr = (if 0 \<le> y \<and> y \<le> 99 then 1900 + y else y)
          in TimeClip (UTC rt (MakeDate (MakeDay yr m 1) (MakeTime 0 0 0 0))))))"

subsection \<open>Methods of \<open>Date\<close>\<close>

definition getTime :: "Date \<Rightarrow> Number" where
  "getTime d = d"

definition getUTCFullYear :: "Date \<Rightarrow> Number" where
  "getUTCFullYear d = map_option YearFromTime d"

definition getUTCMonth :: "Date \<Rightarrow> Number" where
  "getUTCMonth d = map_option MonthFromTime d"

definition getDate :: "runtime \<Rightarrow> Date \<Rightarrow> Number" where
  "getDate rt d = map_option (\<lambda>t. DateFromTime (LocalTime rt t)) d"

definition setUTCHours :: "Date \<Rightarrow> int \<Rightarrow> int \<Rightarrow> int \<Rightarrow> int \<Rightarrow> Date" where
  "setUTCHours d h m s milli =
     (case d of None \<Rightarrow> None
      | Some t \<Rightarrow> TimeClip (MakeDate (Day t) (MakeTime h m s milli)))"

definition setHours :: "runtime \<Rightarrow> Date \<Rightarrow> int \<Rightarrow> int \<Rightarrow> int \<Rightarrow> int \<Rightarrow> Date" where
  "setHours rt d h m s milli =
     (case d of None \<Rightarrow> None
      | Some t \<Rightarrow> TimeClip (UTC rt (MakeDate (Day (LocalTime rt t)) (MakeTime h m s milli))))"

definition setDate :: "runtime \<Rightarrow> Date \<Rightarrow> Number \<Rightarrow> Date" where
  "setDate rt d date =
     (case d of None \<Rightarrow> None
      | Some t0 \<Rightarrow>
         (case date of None \<Rightarrow> None
          | Some dt \<Rightarrow>
             (let t = LocalTime rt t0
              in TimeClip (UTC rt (MakeDate (MakeDay (YearFromTime t) (MonthFromTime t) dt)
                                            (TimeWithinDay t))))))"

definition toLocaleString :: "runtime \<Rightarrow> Date \<Rightarrow> string" where
  \<comment> \<open>with the options \<open>{month: 'short', year: 'numeric'}\<close>\<close>
  "toLocaleString rt d = (case d of None \<Rightarrow> ''Invalid Date'' | Some t \<Rightarrow> monthYear rt t)"

subsection \<open>Operators on numbers and dates\<close>

text \<open>A comparison with \<open>NaN\<close> on either side is false; arithmetic with \<open>NaN\<close> is \<open>NaN\<close>.\<close>

definition js_lt :: "Number \<Rightarrow> Number \<Rightarrow> bool" where
  "js_lt a b = (case a of None \<Rightarrow> False | Some x \<Rightarrow> (case b of None \<Rightarrow> False | Some y \<Rightarrow> x < y))"

definition js_le :: "Number \<Rightarrow> Number \<Rightarrow> bool" where
  "js_le a b = (case a of None \<Rightarrow> False | Some x \<Rightarrow> (case b of None \<Rightarrow> False | Some y \<Rightarrow> x \<le> y))"

definition js_ge :: "Number \<Rightarrow> Number \<Rightarrow> bool" where
  "js_ge a b = js_le b a"

definition js_minus :: "Number \<Rightarrow> Number \<Rightarrow> Number" where
  "js_minus a b = (case a of None \<Rightarrow> None | Some x \<Rightarrow> (case b of None \<Rightarrow> None | Some y \<Rightarrow> Some (x - y)))"

definition js_plus :: "Number \<Rightarrow> Number \<Rightarrow> Number" where
  "js_plus a b = (case a of None \<Rightarrow> None | Some x \<Rightarrow> (case b of None \<Rightarrow> None | Some y \<Rightarrow> Some (x + y)))"

subsection \<open>\<open>Array.prototype.sort\<close> with a comparator\<close>

text \<open>
  The sort is stable, and a comparator result of \<open>NaN\<close> counts as \<open>0\<close>. It is modelled as
  the stable insertion sort; every conforming sort returns the same list whenever the
  comparator orders the elements consistently.
\<close>

definition SortCompare :: "('a \<Rightarrow> 'a \<Rightarrow> Number) \<Rightarrow> 'a \<Rightarrow> 'a \<Rightarrow> int" where
  "SortCompare comparefn x y = (case comparefn x y of None \<Rightarrow> 0 | Some v \<Rightarrow> v)"

fun sort_insert :: "('a \<Rightarrow> 'a \<Rightarrow> Number) \<Rightarrow> 'a \<Rightarrow> 'a list \<Rightarrow> 'a list" where
  "sort_insert comparefn x [] = [x]"
| "sort_insert comparefn x (y # ys) =
     (if SortCompare comparefn x y \<le> 0 then x # y # ys
      else y # sort_insert comparefn x ys)"

definition array_sort :: "('a \<Rightarrow> 'a \<Rightarrow> Number) \<Rightarrow> 'a list \<Rightarrow> 'a list" where
  "array_sort comparefn xs = foldr (sort_insert comparefn) xs []"


section \<open>The records the dashboard consumes\<close>

text \<open>
  The declarations of the record types (\<open>types.ts\<close>) are not among the sources; the
  fields are the ones \<open>DashboardView.tsx\<close> reads. A date is an ISO date string. A date
  field that the code guards against absence, or whose absence is in question, is a
  \<open>string option\<close>, \<open>None\<close> being \<open>undefined\<close>. An amount is a whole number of rupees.
\<close>

record Expense =
  ident :: string
  amount :: int
  date :: string

record FeePayment = Expense +
  studentId :: string
  status :: string

record Student =
  student_id :: string
  student_name :: string
  admissionDate :: "string option"
  courseIds :: "string list"

record StaffMember =
  staff_id :: string
  joiningDate :: "string option"

record Batch =
  batch_id :: string
  batch_startDate :: "string option"

record Lead =
  lead_id :: string
  enquiryDate :: "string option"


section \<open>\<open>DashboardView.tsx\<close>\<close>

subsection \<open>\<open>toISODateString\<close>\<close>

fun digits :: "nat \<Rightarrow> nat \<Rightarrow> string" where
  \<comment> \<open>the last \<open>k\<close> decimal digits of \<open>n\<close>\<close>
  "digits 0 n = []"
| "digits (Suc k) n = digits k (n div 10) @ [''0123456789'' ! (n mod 10)]"

definition toISOString :: "int \<Rightarrow> string" where
  \<comment> \<open>\<open>Date.prototype.toISOString\<close> of a valid time value: \<open>YYYY-MM-DDTHH:mm:ss.sssZ\<close>, the
      year with a sign and six digits outside 0 to 9999\<close>
  "toISOString t =
     (let y = YearFromTime t; w = TimeWithinDay t
      in (if 0 \<le> y \<and> y \<le> 9999 then digits 4 (nat y)
          else (if y < 0 then ''-'' else ''+'') @ digits 6 (nat \<bar>y\<bar>))
         @ ''-'' @ digits 2 (nat (MonthFromTime t + 1))
         @ ''-'' @ digits 2 (nat (DateFromTime t))
         @ ''T'' @ digits 2 (nat (w div 3600000))
         @ '':'' @ digits 2 (nat (w div 60000 mod 60))
         @ '':'' @ digits 2 (nat (w div 1000 mod 60))
         @ ''.'' @ digits 3 (nat (w mod 1000)) @ ''Z'')"

definition toISODateString :: "int \<Rightarrow> string" where
  \<comment> \<open>\<open>date.toISOString().split('T')[0]\<close>\<close>
  "toISODateString t = takeWhile (\<lambda>c. c \<noteq> CHR ''T'') (toISOString t)"

subsection \<open>\<open>filteredData\<close>\<close>

record FilteredData =
  newAdmissionsCount :: nat
  newHiresCount :: nat
  activeCoursesCount :: nat
  newBatchesCount :: nat
  newLeadsCount :: nat
  revenue :: int
  expenses :: int
  paidPayments :: "FeePayment list"
  allExpenses :: "Expense list"

definition period_start :: "runtime \<Rightarrow> string \<Rightarrow> Date" where
  \<comment> \<open>\<open>start = new Date(startDate); start.setUTCHours(0, 0, 0, 0)\<close>\<close>
  "period_start rt startDate = setUTCHours (Date_string rt startDate) 0 0 0 0"

definition period_end :: "runtime \<Rightarrow> string \<Rightarrow> Date" where
  \<comment> \<open>\<open>end = new Date(endDate); end.setUTCHours(23, 59, 59, 999)\<close>\<close>
  "period_end rt endDate = setUTCHours (Date_string rt endDate) 23 59 59 999"

definition or_else :: "string option \<Rightarrow> string \<Rightarrow> string" where
  \<comment> \<open>\<open>v || w\<close> on an optional string: \<open>undefined\<close> and the empty string are falsy\<close>
  "or_else v w = (case v of None \<Rightarrow> w | Some s \<Rightarrow> if s = [] then w else s)"

definition newAdmissions :: "runtime \<Rightarrow> Date \<Rightarrow> Date \<Rightarrow> Student list \<Rightarrow> Student list" where
  "newAdmissions rt start end students =
     filter (\<lambda>s.
       let admissionDate = Date_string rt (or_else (admissionDate s) (toISODateString (now rt)))
       in js_ge admissionDate start \<and> js_le admissionDate end) students"

definition newHires :: "runtime \<Rightarrow> Date \<Rightarrow> Date \<Rightarrow> StaffMember list \<Rightarrow> StaffMember list" where
  "newHires rt start end staff =
     filter (\<lambda>s.
       let joiningDate = Date_value rt (joiningDate s)
       in js_ge joiningDate start \<and> js_le joiningDate end) staff"

definition Set_add :: "'a \<Rightarrow> 'a list \<Rightarrow> 'a list" where
  \<comment> \<open>\<open>Set.prototype.add\<close>; a \<open>Set\<close> is the list of its elements in insertion order\<close>
  "Set_add x s = (if x \<in> set s then s else s @ [x])"

definition activeCourseIds :: "Student list \<Rightarrow> string list" where
  "activeCourseIds admissions =
     fold (\<lambda>student acc. fold (\<lambda>courseId acc'. Set_add courseId acc') (courseIds student) acc)
       admissions []"

definition newBatches :: "runtime \<Rightarrow> Date \<Rightarrow> Date \<Rightarrow> Batch list \<Rightarrow> Batch list" where
  "newBatches rt start end batches =
     filter (\<lambda>b.
       let batchStartDate = Date_value rt (batch_startDate b)
       in js_ge batchStartDate start \<and> js_le batchStartDate end) batches"

definition newLeads :: "runtime \<Rightarrow> Date \<Rightarrow> Date \<Rightarrow> Lead list \<Rightarrow> Lead list" where
  "newLeads rt start end leads =
     filter (\<lambda>l.
       let enquiryDate = Date_value rt (enquiryDate l)
       in js_ge enquiryDate start \<and> js_le enquiryDate end) leads"

definition paidPaymentsIn :: "runtime \<Rightarrow> Date \<Rightarrow> Date \<Rightarrow> FeePayment list \<Rightarrow> FeePayment list" where
  "paidPaymentsIn rt start end feePayments =
     filter (\<lambda>f.
       if status f \<noteq> ''Paid'' then False
       else (let paymentDate = Date_string rt (date f)
             in js_ge paymentDate start \<and> js_le paymentDate end)) feePayments"

definition allExpensesIn :: "runtime \<Rightarrow> Date \<Rightarrow> Date \<Rightarrow> Expense list \<Rightarrow> Expense list" where
  "allExpensesIn rt start end expensesList =
     filter (\<lambda>e.
       let expenseDate = Date_string rt (date e)
       in js_ge expenseDate start \<and> js_le expenseDate end) expensesList"

definition filteredData ::
  "runtime \<Rightarrow> string \<Rightarrow> string \<Rightarrow> Student list \<Rightarrow> StaffMember list \<Rightarrow> Batch list \<Rightarrow>
   Lead list \<Rightarrow> FeePayment list \<Rightarrow> Expense list \<Rightarrow> FilteredData" where
  "filteredData rt startDate endDate students staff batches leads feePayments expensesList =
     (let start = period_start rt startDate;
          end = period_end rt endDate;
          admitted = newAdmissions rt start end students;
          paid = paidPaymentsIn rt start end feePayments;
          spent = allExpensesIn rt start end expensesList
      in \<lparr> newAdmissionsCount = length admitted,
           newHiresCount = length (newHires rt start end staff),
           activeCoursesCount = length (activeCourseIds admitted),
           newBatchesCount = length (newBatches rt start end batches),
           newLeadsCount = length (newLeads rt start end leads),
           revenue = fold (\<lambda>f sum. sum + amount f) paid 0,
           expenses = fold (\<lambda>e sum. sum + amount e) spent 0,
           paidPayments = paid,
           allExpenses = spent \<rparr>)"

subsection \<open>\<open>processMonthlyData\<close>\<close>

record MonthTotals =
  Revenue :: int
  Expenses :: int

record ChartPoint = MonthTotals +
  name :: string

datatype series = RevenueSeries | ExpensesSeries

type_synonym monthlyData = "(string \<times> MonthTotals) list"
  \<comment> \<open>the object \<open>monthlyData\<close>: its keys in insertion order, each with its totals. A month
      label is taken to be neither an array index nor the name of a property that every
      object inherits (no locale writes a month so); the keys are then the labels stored,
      in the order of their first use.\<close>

definition monthOf :: "runtime \<Rightarrow> string \<Rightarrow> string" where
  \<comment> \<open>the key \<open>month\<close> of an item, from its \<open>date\<close>\<close>
  "monthOf rt d =
     (let itemDate = Date_string rt d
      in toLocaleString rt (Date_year_month rt (getUTCFullYear itemDate) (getUTCMonth itemDate)))"

definition addTo :: "series \<Rightarrow> int \<Rightarrow> MonthTotals \<Rightarrow> MonthTotals" where
  "addTo type a tot =
     (case type of RevenueSeries \<Rightarrow> tot\<lparr>Revenue := Revenue tot + a\<rparr>
      | ExpensesSeries \<Rightarrow> tot\<lparr>Expenses := Expenses tot + a\<rparr>)"

definition processItem ::
  "runtime \<Rightarrow> series \<Rightarrow> ('a Expense_scheme) \<Rightarrow> monthlyData \<Rightarrow> monthlyData" where
  "processItem rt type item md =
     (let month = monthOf rt (date item);
          md' = (if map_of md month = None
                 then AList.update month \<lparr>Revenue = 0, Expenses = 0\<rparr> md else md)
      in AList.map_entry month (addTo type (amount item)) md')"

definition processItems ::
  "runtime \<Rightarrow> ('a Expense_scheme) list \<Rightarrow> series \<Rightarrow> monthlyData \<Rightarrow> monthlyData" where
  "processItems rt items type md = fold (processItem rt type) items md"

definition byName :: "runtime \<Rightarrow> ChartPoint \<Rightarrow> ChartPoint \<Rightarrow> Number" where
  \<comment> \<open>the comparator \<open>(a, b) => new Date(a.name) - new Date(b.name)\<close>\<close>
  "byName rt a b = js_minus (Date_string rt (name a)) (Date_string rt (name b))"

definition processMonthlyData ::
  "runtime \<Rightarrow> FeePayment list \<Rightarrow> Expense list \<Rightarrow> ChartPoint list" where
  "processMonthlyData rt payments expensesList =
     (let md = processItems rt expensesList ExpensesSeries
                 (processItems rt payments RevenueSeries []);
          chartData = map (\<lambda>(month, tot).
                        \<lparr>Revenue = Revenue tot, Expenses = Expenses tot, name = month\<rparr>) md
      in array_sort (byName rt) chartData)"

subsection \<open>Overdue and upcoming payments\<close>

definition todayDate :: "runtime \<Rightarrow> Date" where
  \<comment> \<open>\<open>todayDate = new Date(); todayDate.setHours(0, 0, 0, 0)\<close>\<close>
  "todayDate rt = setHours rt (Date_now rt) 0 0 0 0"

definition pendingPayments :: "FeePayment list \<Rightarrow> FeePayment list" where
  "pendingPayments feePayments = filter (\<lambda>p. status p = ''Pending'') feePayments"

definition byDate :: "runtime \<Rightarrow> FeePayment \<Rightarrow> FeePayment \<Rightarrow> Number" where
  \<comment> \<open>\<open>(a, b) => new Date(a.date).getTime() - new Date(b.date).getTime()\<close>\<close>
  "byDate rt a b =
     js_minus (getTime (Date_string rt (date a))) (getTime (Date_string rt (date b)))"

definition overduePayments :: "runtime \<Rightarrow> FeePayment list \<Rightarrow> FeePayment list" where
  "overduePayments rt feePayments =
     array_sort (byDate rt)
       (filter (\<lambda>p. js_lt (Date_string rt (date p)) (todayDate rt))
          (pendingPayments feePayments))"

definition thirtyDaysFromNow :: "runtime \<Rightarrow> Date" where
  \<comment> \<open>\<open>thirtyDaysFromNow = new Date(); thirtyDaysFromNow.setDate(todayDate.getDate() + 30)\<close>\<close>
  "thirtyDaysFromNow rt =
     setDate rt (Date_now rt) (js_plus (getDate rt (todayDate rt)) (Some 30))"

definition upcomingPayments :: "runtime \<Rightarrow> FeePayment list \<Rightarrow> FeePayment list" where
  "upcomingPayments rt feePayments =
     array_sort (byDate rt)
       (filter (\<lambda>p.
          let paymentDate = Date_string rt (date p)
          in js_ge paymentDate (todayDate rt) \<and> js_le paymentDate (thirtyDaysFromNow rt))
          (pendingPayments feePayments))"

subsection \<open>The view\<close>

text \<open>
  What one render of \<open>DashboardView\<close> computes from the collections of \<open>data\<close>, the state
  \<open>startDate\<close>, \<open>endDate\<close> (the selected period) and the run time.
\<close>

record Dashboard =
  metrics :: FilteredData
  chartData :: "ChartPoint list"
  overdue :: "FeePayment list"
  upcoming :: "FeePayment list"

definition DashboardView ::
  "runtime \<Rightarrow> string \<Rightarrow> string \<Rightarrow> Student list \<Rightarrow> StaffMember list \<Rightarrow> Batch list \<Rightarrow>
   Lead list \<Rightarrow> FeePayment list \<Rightarrow> Expense list \<Rightarrow> Dashboard" where
  "DashboardView rt startDate endDate students staff batches leads feePayments expensesList =
     (let fd = filteredData rt startDate endDate students staff batches leads feePayments
                 expensesList
      in \<lparr> metrics = fd,
           chartData = processMonthlyData rt (paidPayments fd) (allExpenses fd),
           overdue = overduePayments rt feePayments,
           upcoming = upcomingPayments rt feePayments \<rparr>)"


section \<open>\<open>Table.tsx\<close>\<close>

datatype direction = ascending | descending

record SortConfig =
  sort_key :: string
  sort_direction :: direction

record TableHeader =
  key :: string
  label :: string
  sortable :: "bool option"

datatype call = requestSort string | onSearchChange string
  \<comment> \<open>a call of one of the callbacks the caller passes in\<close>

datatype SortIcon = Neutral | Up | Down

record th =
  th_key :: string
  cursor :: string
  th_label :: string
  icon :: "SortIcon option"
  onClick :: "call list"
    \<comment> \<open>the calls the click handler of the cell makes\<close>

definition truthy :: "bool option \<Rightarrow> bool" where
  \<comment> \<open>an optional boolean as a condition: \<open>undefined\<close> is falsy\<close>
  "truthy b = (b = Some True)"

definition renderSortIcon :: "bool \<Rightarrow> direction option \<Rightarrow> SortIcon" where
  "renderSortIcon active dir =
     (if \<not> active then Neutral else if dir = Some ascending then Up else Down)"

definition renderHeader :: "SortConfig option \<Rightarrow> TableHeader \<Rightarrow> th" where
  "renderHeader sortConfig header =
     \<lparr> th_key = key header,
       cursor = (if truthy (sortable header) then ''pointer'' else ''default''),
       th_label = label header,
       icon = (if truthy (sortable header)
               then Some (renderSortIcon (map_option sort_key sortConfig = Some (key header))
                            (if map_option sort_key sortConfig = Some (key header)
                             then map_option sort_direction sortConfig else None))
               else None),
       onClick = (if truthy (sortable header) then [requestSort (key header)] else []) \<rparr>"

definition Table_thead :: "TableHeader list \<Rightarrow> SortConfig option \<Rightarrow> th list" where
  \<comment> \<open>the header row: \<open>headers.map((header) => <th ...>)\<close>\<close>
  "Table_thead headers sortConfig = map (renderHeader sortConfig) headers"

definition click :: "th list \<Rightarrow> nat \<Rightarrow> call list" where
  \<comment> \<open>the calls made by a click on the \<open>i\<close>-th cell of a header row\<close>
  "click row i = (if i < length row then onClick (row ! i) else [])"


section \<open>A sample run time\<close>

text \<open>
  A browser with an English locale in a fixed time zone, for evaluating the component at
  concrete inputs. Its \<open>Date.parse\<close> reads the two formats the component meets: ISO
  date-only strings (\<open>2024-03-15\<close>, midnight UTC, as the standard requires) and the month
  labels of this locale (\<open>Mar 2024\<close>, read as local midnight of the first of the month, as
  V8 does).
\<close>

definition isDigit :: "char \<Rightarrow> bool" where
  "isDigit c = (c \<in> set ''0123456789'')"

definition digitValue :: "char \<Rightarrow> int" where
  "digitValue c = int (length (takeWhile (\<lambda>d. d \<noteq> c) ''0123456789''))"

definition numberOf :: "string \<Rightarrow> int" where
  "numberOf s = fold (\<lambda>c n. 10 * n + digitValue c) s 0"

definition DaysInMonth :: "int \<Rightarrow> int \<Rightarrow> int" where
  \<comment> \<open>\<open>m\<close> from 1 to 12\<close>
  "DaysInMonth y m =
     (if m = 2 then (if DaysInYear y = 366 then 29 else 28)
      else if m = 4 \<or> m = 6 \<or> m = 9 \<or> m = 11 then 30 else 31)"

definition parseISODate :: "string \<Rightarrow> int option" where
  "parseISODate s =
     (if length s = 10 \<and> s ! 4 = CHR ''-'' \<and> s ! 7 = CHR ''-''
         \<and> list_all isDigit (take 4 s) \<and> list_all isDigit (take 2 (drop 5 s))
         \<and> list_all isDigit (drop 8 s)
      then (let y = numberOf (take 4 s); m = numberOf (take 2 (drop 5 s));
                d = numberOf (drop 8 s)
            in if 1 \<le> m \<and> m \<le> 12 \<and> 1 \<le> d \<and> d \<le> DaysInMonth y m
               then Some (MakeDate (MakeDay y (m - 1) d) 0) else None)
      else None)"

definition monthNames :: "string list" where
  "monthNames = [''Jan'', ''Feb'', ''Mar'', ''Apr'', ''May'', ''Jun'',
                 ''Jul'', ''Aug'', ''Sep'', ''Oct'', ''Nov'', ''Dec'']"

definition monthYear_en :: "int \<Rightarrow> int \<Rightarrow> string" where
  \<comment> \<open>month and year of a time value in local time, \<open>Mar 2024\<close>\<close>
  "monthYear_en tza t =
     monthNames ! nat (MonthFromTime (t + tza)) @ '' ''
       @ dropWhile (\<lambda>c. c = CHR ''0'') (digits 6 (nat (YearFromTime (t + tza))))"

definition monthIndex :: "string \<Rightarrow> int option" where
  "monthIndex w =
     (if w \<in> set monthNames
      then Some (int (length (takeWhile (\<lambda>n. n \<noteq> w) monthNames))) else None)"

definition parseMonthYear :: "int \<Rightarrow> string \<Rightarrow> int option" where
  "parseMonthYear tza s =
     (case monthIndex (take 3 s) of
        None \<Rightarrow> None
      | Some m \<Rightarrow>
          if 4 < length s \<and> s ! 3 = CHR '' '' \<and> list_all isDigit (drop 4 s)
          then Some (MakeDate (MakeDay (numberOf (drop 4 s)) m 1) 0 - tza) else None)"

definition browser :: "int \<Rightarrow> int \<Rightarrow> runtime" where
  \<comment> \<open>the sample run time in the zone \<open>tza\<close> milliseconds east of UTC, at the instant \<open>t\<close>\<close>
  "browser tza t =
     \<lparr> parse = (\<lambda>s. case parseISODate s of Some v \<Rightarrow> Some v | None \<Rightarrow> parseMonthYear tza s),
       LocalTZA = tza,
       now = t,
       monthYear = monthYear_en tza \<rparr>"

definition utc :: "int \<Rightarrow> int \<Rightarrow> int \<Rightarrow> int \<Rightarrow> int \<Rightarrow> int" where
  \<comment> \<open>the time value of a UTC date and time of day; the month counts from 1\<close>
  "utc y m d h mi = MakeDate (MakeDay y (m - 1) d) (MakeTime h mi 0 0)"


section \<open>Sample data\<close>

definition india :: runtime where
  \<comment> \<open>India (UTC+5:30) at 15:00 local time on 10 June 2024\<close>
  "india = browser 19800000 (utc 2024 6 10 9 30)"

definition bogota :: runtime where
  \<comment> \<open>a zone five hours west of UTC at 10:00 local time on 10 June 2024\<close>
  "bogota = browser (- 18000000) (utc 2024 6 10 15 0)"

definition india_night :: runtime where
  \<comment> \<open>India (UTC+5:30) at 02:00 local time on 10 June 2024\<close>
  "india_night = browser 19800000 (utc 2024 6 9 20 30)"

definition readISO :: "string \<Rightarrow> int" where
  \<comment> \<open>the time value of an ISO date-only string\<close>
  "readISO d = (case parseISODate d of None \<Rightarrow> 0 | Some t \<Rightarrow> t)"

definition payment :: "string \<Rightarrow> string \<Rightarrow> string \<Rightarrow> int \<Rightarrow> FeePayment" where
  "payment i d s a = \<lparr>ident = i, amount = a, date = d, studentId = ''S1'', status = s\<rparr>"

definition samplePayments :: "FeePayment list" where
  "samplePayments =
     [payment ''F1'' ''2024-06-25'' ''Pending'' 1500,
      payment ''F2'' ''2024-06-10'' ''Pending'' 2500,
      payment ''F3'' ''2024-03-15'' ''Paid'' 5000,
      payment ''F4'' ''2024-06-01'' ''Pending'' 1000,
      payment ''F5'' ''2024-08-01'' ''Pending'' 3000,
      payment ''F6'' ''2024-05-20'' ''Pending'' 800]"

definition sampleExpenses :: "Expense list" where
  "sampleExpenses = [\<lparr>ident = ''E1'', amount = 2000, date = ''2024-03-15''\<rparr>]"

definition sampleStudents :: "Student list" where
  "sampleStudents =
     [\<lparr>student_id = ''S1'', student_name = ''Asha'', admissionDate = Some ''2024-03-15'',
       courseIds = [''C1'', ''C2'']\<rparr>,
      \<lparr>student_id = ''S2'', student_name = ''Ravi'', admissionDate = Some ''2024-06-01'',
       courseIds = [''C2'', ''C3'', ''C2'']\<rparr>,
      \<lparr>student_id = ''S3'', student_name = ''Meena'', admissionDate = None,
       courseIds = [''C1'']\<rparr>]"

definition sampleStaff :: "StaffMember list" where
  "sampleStaff =
     [\<lparr>staff_id = ''T1'', joiningDate = None\<rparr>,
      \<lparr>staff_id = ''T2'', joiningDate = Some ''2024-03-15''\<rparr>]"

definition sampleBatches :: "Batch list" where
  "sampleBatches =
     [\<lparr>batch_id = ''B1'', batch_startDate = None\<rparr>,
      \<lparr>batch_id = ''B2'', batch_startDate = Some ''2024-06-01''\<rparr>]"

definition sampleLeads :: "Lead list" where
  "sampleLeads =
     [\<lparr>lead_id = ''L1'', enquiryDate = None\<rparr>,
      \<lparr>lead_id = ''L2'', enquiryDate = Some ''2024-05-20''\<rparr>]"

definition sampleHeaders :: "TableHeader list" where
  "sampleHeaders =
     [\<lparr>key = ''name'', label = ''Name'', sortable = Some True\<rparr>,
      \<lparr>key = ''phone'', label = ''Phone'', sortable = Some False\<rparr>,
      \<lparr>key = ''actions'', label = ''Actions'', sortable = None\<rparr>]"


section \<open>Notions used in the statements\<close>

definition dueBefore :: "runtime \<Rightarrow> FeePayment \<Rightarrow> FeePayment \<Rightarrow> bool" where
  \<comment> \<open>both due dates are valid, and the first is not after the second\<close>
  "dueBefore rt a b = js_le (Date_string rt (date a)) (Date_string rt (date b))"

definition calendarMonth :: "int \<Rightarrow> int" where
  \<comment> \<open>the calendar month (UTC) of a time value, counted in months from January of year 0\<close>
  "calendarMonth t = 12 * YearFromTime t + MonthFromTime t"

definition localMonthStart :: "runtime \<Rightarrow> int \<Rightarrow> int" where
  \<comment> \<open>local midnight of the first day of a calendar month\<close>
  "localMonthStart rt n = UTC rt (MakeDate (MakeDay 0 n 1) (MakeTime 0 0 0 0))"


section \<open>Lemmas\<close>

subsection \<open>Sorting\<close>

lemma set_sort_insert: "set (sort_insert f x ys) = insert x (set ys)"
  by (induction ys) auto

lemma set_array_sort: "set (array_sort f xs) = set xs"
  unfolding array_sort_def by (induction xs) (simp_all add: set_sort_insert)

lemma sorted_sort_insert_key:
  assumes cmp: "\<And>a b. f a b = js_minus (k a) (k b)"
    and "sorted_wrt (\<lambda>a b. js_le (k a) (k b)) ys"
    and "\<forall>y \<in> set (x # ys). k y \<noteq> None"
  shows "sorted_wrt (\<lambda>a b. js_le (k a) (k b)) (sort_insert f x ys)"
  using assms(2,3)
proof (induction ys)
  case Nil
  then show ?case by simp
next
  case (Cons y ys)
  obtain tx ty where t: "k x = Some tx" "k y = Some ty"
    using Cons.prems(2) by auto
  show ?case
  proof (cases "SortCompare f x y \<le> 0")
    case True
    then have xy: "tx \<le> ty"
      using t by (simp add: SortCompare_def cmp js_minus_def)
    have "js_le (k x) (k z)" if "z \<in> set (y # ys)" for z
    proof -
      have "js_le (k y) (k z) \<or> z = y" using Cons.prems(1) that by auto
      then show ?thesis using xy t
        by (auto simp: js_le_def split: option.splits)
    qed
    then show ?thesis using True Cons.prems(1) by auto
  next
    case False
    then have yx: "ty \<le> tx"
      using t by (simp add: SortCompare_def cmp js_minus_def)
    have "js_le (k y) (k z)" if "z \<in> set (sort_insert f x ys)" for z
      using that Cons.prems(1) yx t by (auto simp: set_sort_insert js_le_def)
    moreover have "sorted_wrt (\<lambda>a b. js_le (k a) (k b)) (sort_insert f x ys)"
      using Cons by auto
    ultimately show ?thesis using False by auto
  qed
qed

lemma sorted_array_sort_key:
  assumes cmp: "\<And>a b. f a b = js_minus (k a) (k b)"
    and "\<forall>y \<in> set xs. k y \<noteq> None"
  shows "sorted_wrt (\<lambda>a b. js_le (k a) (k b)) (array_sort f xs)"
  using assms(2)
proof (induction xs)
  case Nil
  then show ?case by (simp add: array_sort_def)
next
  case (Cons x xs)
  have "sorted_wrt (\<lambda>a b. js_le (k a) (k b)) (sort_insert f x (array_sort f xs))"
    by (rule sorted_sort_insert_key [OF cmp]) (use Cons in \<open>auto simp: set_array_sort\<close>)
  then show ?case by (simp add: array_sort_def)
qed

lemma distinct_map_sort_insert:
  "distinct (map g (sort_insert f x ys)) \<longleftrightarrow> distinct (map g (x # ys))"
  by (induction ys) (auto simp: set_sort_insert)

lemma distinct_map_array_sort:
  "distinct (map g (array_sort f xs)) \<longleftrightarrow> distinct (map g xs)"
  unfolding array_sort_def
  by (induction xs) (auto simp: distinct_map_sort_insert set_array_sort [unfolded array_sort_def])

subsection \<open>Comparisons\<close>

lemma js_lt_not_ge: "js_lt a b \<Longrightarrow> \<not> js_ge a b"
  by (auto simp: js_lt_def js_ge_def js_le_def split: option.splits)

subsection \<open>Calendar arithmetic\<close>

lemma Day_MakeDate: "0 \<le> w \<Longrightarrow> w < msPerDay \<Longrightarrow> Day (MakeDate d w) = d"
  by (simp add: Day_def MakeDate_def msPerDay_def div_pos_pos_trivial)

lemma Day_split: "Day t * msPerDay + TimeWithinDay t = t"
  by (simp add: Day_def TimeWithinDay_def)

lemma MonthFromTime_range: "0 \<le> MonthFromTime t \<and> MonthFromTime t \<le> 11"
  by (simp add: MonthFromTime_def Let_def)

lemma MakeDay_fields:
  "MakeDay (YearFromTime t) (MonthFromTime t) dt = Day t - DateFromTime t + dt"
proof -
  have m: "MonthFromTime t div 12 = 0" "MonthFromTime t mod 12 = MonthFromTime t"
    using MonthFromTime_range [of t] by (simp_all add: div_pos_pos_trivial)
  show ?thesis
    by (simp add: MakeDay_def m DateFromTime_def DayWithinYear_def InLeapYear_def)
qed

lemma DateFromTime_cong: "Day a = Day b \<Longrightarrow> DateFromTime a = DateFromTime b"
  by (simp add: DateFromTime_def DayWithinYear_def InLeapYear_def MonthFromTime_def
      YearFromTime_def)

lemma div_bounds:
  fixes a c :: int
  assumes "0 < c"
  shows "c * (a div c) \<le> a" and "a - c < c * (a div c)"
  using mult_div_mod_eq [of c a] pos_mod_sign [OF assms, of a] pos_mod_bound [OF assms, of a]
  by linarith+

lemma div_succ:
  fixes a c :: int
  assumes "1 < c"
  shows "(a + 1) div c = a div c + (if a mod c = c - 1 then 1 else 0)"
proof -
  have c: "1 div c = 0" "1 mod c = 1" using assms by simp_all
  have r: "0 \<le> a mod c" "a mod c < c" using assms by simp_all
  have "(a mod c + 1) div c = (if a mod c = c - 1 then 1 else 0)"
  proof (cases "a mod c = c - 1")
    case True
    then show ?thesis using assms by simp
  next
    case False
    then have "a mod c + 1 < c" using r by simp
    then show ?thesis using False r by (simp add: div_pos_pos_trivial)
  qed
  then show ?thesis using div_add1_eq [of a 1 c] by (simp add: c)
qed

lemma mod_succ:
  fixes a c :: int
  assumes "1 < c"
  shows "(a + 1) mod c = (if a mod c = c - 1 then 0 else a mod c + 1)"
proof -
  have e1: "(a + 1) mod c = a + 1 - c * ((a + 1) div c)"
    by (simp add: minus_mult_div_eq_mod)
  have e2: "a - c * (a div c) = a mod c"
    by (simp add: minus_mult_div_eq_mod)
  show ?thesis
  proof (cases "a mod c = c - 1")
    case True
    then have "(a + 1) mod c = a - c * (a div c) + 1 - c"
      unfolding e1 div_succ [OF assms] by (simp add: algebra_simps)
    then show ?thesis using True by (simp add: e2)
  next
    case False
    then have "(a + 1) mod c = a - c * (a div c) + 1"
      unfolding e1 div_succ [OF assms] by (simp add: algebra_simps)
    then show ?thesis using False by (simp add: e2)
  qed
qed

lemma century_year_mod_4:
  assumes "(y - 1901) mod 100 = (99::int)"
  shows "(y - 1969) mod 4 = 3"
proof -
  have "(y - 1901) mod 4 = ((y - 1901) mod 100) mod 4"
    by (simp add: mod_mod_cancel)
  then have "(y - 1901) mod 4 = 3" using assms by simp
  moreover have "(y - 1969) mod 4 = (y - 1901) mod 4" by presburger
  ultimately show ?thesis by simp
qed

lemma DayFromYear_step: "DayFromYear y + 365 \<le> DayFromYear (y + 1)"
proof -
  have 1: "(y + 1 - 1969) div 4 = (y - 1969) div 4 + (if (y - 1969) mod 4 = 3 then 1 else 0)"
    using div_succ [of 4 "y - 1969"] by (simp add: algebra_simps)
  have 2: "(y + 1 - 1901) div 100
             = (y - 1901) div 100 + (if (y - 1901) mod 100 = 99 then 1 else 0)"
    using div_succ [of 100 "y - 1901"] by (simp add: algebra_simps)
  have 3: "(y - 1601) div 400 \<le> (y + 1 - 1601) div 400"
    by (rule zdiv_mono1) simp_all
  show ?thesis
    unfolding DayFromYear_def 1 2 using 3 century_year_mod_4 [of y]
    by (simp split: if_splits)
qed

lemma DayFromYear_mono_nat: "DayFromYear y \<le> DayFromYear (y + int k)"
proof (induction k)
  case 0
  show ?case by simp
next
  case (Suc k)
  then show ?case using DayFromYear_step [of "y + int k"] by (simp add: algebra_simps)
qed

lemma DayFromYear_mono: "y \<le> y' \<Longrightarrow> DayFromYear y \<le> DayFromYear y'"
  using DayFromYear_mono_nat [of y "nat (y' - y)"] by simp

text \<open>
  The year of a day, as computed, is the year the standard defines: the last year that
  begins on or before the day.
\<close>

lemma YearFromDay_correct:
  "DayFromYear (YearFromDay d) \<le> d \<and> d < DayFromYear (YearFromDay d + 1)"
proof -
  define y where "y = 1970 + (400 * d) div 146097"
  have b: "146097 * (y - 1970) \<le> 400 * d" "400 * d < 146097 * (y - 1970) + 146097"
    unfolding y_def using div_bounds [of 146097 "400 * d"] by simp_all
  have lin: "400 * (365 * (z - 1970) + A - B + C) \<le> 146097 * (z - 1970) + 700
      \<and> 146097 * (z - 1970) - 700 \<le> 400 * (365 * (z - 1970) + A - B + C)"
    if "4 * A \<le> z - 1969" "z - 1969 - 4 < 4 * A" "100 * B \<le> z - 1901"
      "z - 1901 - 100 < 100 * B" "400 * C \<le> z - 1601" "z - 1601 - 400 < 400 * C"
    for z A B C :: int
    using that by auto
  have up: "400 * DayFromYear z \<le> 146097 * (z - 1970) + 700"
    and lo: "146097 * (z - 1970) - 700 \<le> 400 * DayFromYear z" for z
    unfolding DayFromYear_def
    using lin [OF div_bounds [of 4 "z - 1969"] div_bounds [of 100 "z - 1901"]
        div_bounds [of 400 "z - 1601"]]
    by simp_all
  have 1: "DayFromYear (y - 1) \<le> d" using up [of "y - 1"] b by simp
  have 2: "d < DayFromYear (y + 2)" using lo [of "y + 2"] b by simp
  have yd: "YearFromDay d =
      (if d < DayFromYear y then y - 1 else if DayFromYear (y + 1) \<le> d then y + 1 else y)"
    by (simp add: YearFromDay_def y_def Let_def)
  show ?thesis
  proof (cases "d < DayFromYear y")
    case True
    then show ?thesis using 1 by (simp add: yd)
  next
    case False
    show ?thesis
    proof (cases "DayFromYear (y + 1) \<le> d")
      case True
      have "d < DayFromYear (y + 1 + 1)" using 2 by (simp add: add.commute)
      then show ?thesis using True False by (simp add: yd del: add_2_eq_Suc)
    next
      case False
      then show ?thesis using \<open>\<not> d < DayFromYear y\<close> by (simp add: yd)
    qed
  qed
qed

text \<open>The first days of the calendar months follow each other in the order of the months.\<close>

lemma DaysBeforeMonth_step:
  assumes "0 \<le> m" "m < 11" "l = 0 \<or> l = 1"
  shows "DaysBeforeMonth l m < DaysBeforeMonth l (m + 1)"
proof -
  have "m = 0 \<or> m = 1 \<or> m = 2 \<or> m = 3 \<or> m = 4 \<or> m = 5 \<or> m = 6 \<or> m = 7 \<or> m = 8
      \<or> m = 9 \<or> m = 10"
    using assms(1,2) by arith
  then show ?thesis using assms(3) by (auto simp: DaysBeforeMonth_def)
qed

lemma MakeDay_month_step: "MakeDay 0 n 1 < MakeDay 0 (n + 1) 1"
proof (cases "n mod 12 = 11")
  case True
  then show ?thesis
    using DayFromYear_step [of "n div 12"]
    by (simp add: MakeDay_def div_succ [of 12 n] mod_succ [of 12 n] DaysBeforeMonth_def Let_def)
next
  case False
  have "0 \<le> n mod 12" "n mod 12 < 12" by simp_all
  then have "DaysBeforeMonth l (n mod 12) < DaysBeforeMonth l (n mod 12 + 1)"
    if "l = 0 \<or> l = 1" for l
    using False that by (intro DaysBeforeMonth_step) simp_all
  then show ?thesis
    using False by (simp add: MakeDay_def div_succ [of 12 n] mod_succ [of 12 n] Let_def)
qed

lemma MakeDay_month_mono_nat: "MakeDay 0 n 1 < MakeDay 0 (n + 1 + int k) 1"
proof (induction k)
  case 0
  show ?case using MakeDay_month_step [of n] by simp
next
  case (Suc k)
  then show ?case using MakeDay_month_step [of "n + 1 + int k"] by (simp add: algebra_simps)
qed

lemma MakeDay_month_strict: "n < n' \<Longrightarrow> MakeDay 0 n 1 < MakeDay 0 n' 1"
  using MakeDay_month_mono_nat [of n "nat (n' - n - 1)"] by simp

lemma localMonthStart_less_iff: "localMonthStart rt n < localMonthStart rt n' \<longleftrightarrow> n < n'"
proof -
  have "MakeDay 0 n 1 < MakeDay 0 n' 1 \<longleftrightarrow> n < n'"
    using MakeDay_month_strict [of n n'] MakeDay_month_strict [of n' n]
    by (cases n n' rule: linorder_cases) auto
  then show ?thesis
    by (simp add: localMonthStart_def UTC_def MakeDate_def msPerDay_def)
qed

lemma localMonthStart_le_iff: "localMonthStart rt n \<le> localMonthStart rt n' \<longleftrightarrow> n \<le> n'"
  using localMonthStart_less_iff [of rt n' n] by (simp add: not_less [symmetric])

lemma MakeDay_calendarMonth: "MakeDay (YearFromTime t) (MonthFromTime t) 1 = MakeDay 0 (calendarMonth t) 1"
proof -
  have "(12 * YearFromTime t + MonthFromTime t) div 12 = YearFromTime t"
    "(12 * YearFromTime t + MonthFromTime t) mod 12 = MonthFromTime t"
    using MonthFromTime_range [of t] by (simp_all add: div_pos_pos_trivial)
  moreover have "MonthFromTime t div 12 = 0" "MonthFromTime t mod 12 = MonthFromTime t"
    using MonthFromTime_range [of t] by (simp_all add: div_pos_pos_trivial)
  ultimately show ?thesis by (simp add: MakeDay_def calendarMonth_def)
qed

lemma mod_succ_zero:
  fixes a c :: int
  assumes "1 < c"
  shows "(a + 1) mod c = 0 \<longleftrightarrow> a mod c = c - 1"
proof -
  have "0 \<le> a mod c" using assms by simp
  then show ?thesis by (simp add: mod_succ [OF assms])
qed

lemma leap_conditions:
  "(y - 1969) mod 4 = 3 \<longleftrightarrow> y mod 4 = (0::int)"
  "(y - 1901) mod 100 = 99 \<longleftrightarrow> y mod 100 = (0::int)"
  "(y - 1601) mod 400 = 399 \<longleftrightarrow> y mod 400 = (0::int)"
proof -
  have "(y - 1969) mod 4 = 3 \<longleftrightarrow> (y - 1969 + 1) mod 4 = 0"
    using mod_succ_zero [of 4 "y - 1969"] by simp
  also have "(y - 1969 + 1) mod 4 = (y + 4 * (- 492)) mod 4" by simp
  also have "\<dots> = y mod 4" by (rule mod_mult_self2)
  finally show "(y - 1969) mod 4 = 3 \<longleftrightarrow> y mod 4 = 0" .
  have "(y - 1901) mod 100 = 99 \<longleftrightarrow> (y - 1901 + 1) mod 100 = 0"
    using mod_succ_zero [of 100 "y - 1901"] by simp
  also have "(y - 1901 + 1) mod 100 = (y + 100 * (- 19)) mod 100" by simp
  also have "\<dots> = y mod 100" by (rule mod_mult_self2)
  finally show "(y - 1901) mod 100 = 99 \<longleftrightarrow> y mod 100 = 0" .
  have "(y - 1601) mod 400 = 399 \<longleftrightarrow> (y - 1601 + 1) mod 400 = 0"
    using mod_succ_zero [of 400 "y - 1601"] by simp
  also have "(y - 1601 + 1) mod 400 = (y + 400 * (- 4)) mod 400" by simp
  also have "\<dots> = y mod 400" by (rule mod_mult_self2)
  finally show "(y - 1601) mod 400 = 399 \<longleftrightarrow> y mod 400 = 0" .
qed

lemma mod_400_100_4:
  fixes y :: int
  shows "y mod 400 = 0 \<Longrightarrow> y mod 100 = 0" and "y mod 100 = 0 \<Longrightarrow> y mod 4 = 0"
proof -
  have "y mod 100 = (y mod 400) mod 100" by (simp add: mod_mod_cancel)
  then show "y mod 400 = 0 \<Longrightarrow> y mod 100 = 0" by simp
  have "y mod 4 = (y mod 100) mod 4" by (simp add: mod_mod_cancel)
  then show "y mod 100 = 0 \<Longrightarrow> y mod 4 = 0" by simp
qed

lemma DayFromYear_Suc: "DayFromYear (y + 1) = DayFromYear y + DaysInYear y"
proof -
  have 1: "(y + 1 - 1969) div 4 = (y - 1969) div 4 + (if y mod 4 = 0 then 1 else 0)"
    using div_succ [of 4 "y - 1969"] by (simp add: algebra_simps leap_conditions)
  have 2: "(y + 1 - 1901) div 100 = (y - 1901) div 100 + (if y mod 100 = 0 then 1 else 0)"
    using div_succ [of 100 "y - 1901"] by (simp add: algebra_simps leap_conditions)
  have 3: "(y + 1 - 1601) div 400 = (y - 1601) div 400 + (if y mod 400 = 0 then 1 else 0)"
    using div_succ [of 400 "y - 1601"] by (simp add: algebra_simps leap_conditions)
  show ?thesis
    unfolding DayFromYear_def DaysInYear_def 1 2 3
    using mod_400_100_4 [of y] by (auto split: if_splits)
qed

lemma YearFromDay_unique:
  assumes "DayFromYear y \<le> d" "d < DayFromYear (y + 1)"
  shows "YearFromDay d = y"
proof -
  let ?Y = "YearFromDay d"
  have c: "DayFromYear ?Y \<le> d" "d < DayFromYear (?Y + 1)"
    using YearFromDay_correct [of d] by simp_all
  have "\<not> ?Y < y"
  proof
    assume "?Y < y"
    then have "DayFromYear (?Y + 1) \<le> DayFromYear y" by (intro DayFromYear_mono) simp
    then show False using c(2) assms(1) by simp
  qed
  moreover have "\<not> y < ?Y"
  proof
    assume "y < ?Y"
    then have "DayFromYear (y + 1) \<le> DayFromYear ?Y" by (intro DayFromYear_mono) simp
    then show False using c(1) assms(2) by simp
  qed
  ultimately show ?thesis by simp
qed

text \<open>
  \<open>MakeDay\<close> gives the day the standard asks for: the day whose year, month and date are
  the given ones.
\<close>

lemma MakeDay_first_of_month:
  assumes "0 \<le> m" "m \<le> 11"
  shows "YearFromTime (MakeDate (MakeDay y m 1) 0) = y
       \<and> MonthFromTime (MakeDate (MakeDay y m 1) 0) = m
       \<and> DateFromTime (MakeDate (MakeDay y m 1) 0) = 1"
proof -
  define l :: int where "l = (if DaysInYear y = 366 then 1 else 0)"
  define t where "t = MakeDate (MakeDay y m 1) 0"
  have m: "m = 0 \<or> m = 1 \<or> m = 2 \<or> m = 3 \<or> m = 4 \<or> m = 5 \<or> m = 6 \<or> m = 7 \<or> m = 8
      \<or> m = 9 \<or> m = 10 \<or> m = 11"
    using assms by arith
  have md: "MakeDay y m 1 = DayFromYear y + DaysBeforeMonth l m"
    using assms by (simp add: MakeDay_def l_def div_pos_pos_trivial)
  have day: "Day t = DayFromYear y + DaysBeforeMonth l m"
    unfolding t_def by (simp add: Day_MakeDate msPerDay_def md)
  have l01: "l = 0 \<or> l = 1" by (simp add: l_def)
  have diy: "DaysInYear y = 365 + l" by (auto simp: l_def DaysInYear_def)
  have b: "0 \<le> DaysBeforeMonth l m" "DaysBeforeMonth l m < 365 + l"
    using m l01 by (auto simp: DaysBeforeMonth_def)
  have yr: "YearFromTime t = y"
    unfolding YearFromTime_def day
    by (rule YearFromDay_unique) (use b in \<open>simp_all add: DayFromYear_Suc diy\<close>)
  have il: "InLeapYear t = l" by (simp add: InLeapYear_def yr l_def)
  have dw: "DayWithinYear t = DaysBeforeMonth l m" by (simp add: DayWithinYear_def yr day)
  have mo: "MonthFromTime t = m"
    unfolding MonthFromTime_def dw il Let_def
    using m l01 by (auto simp: DaysBeforeMonth_def)
  have "DateFromTime t = 1" by (simp add: DateFromTime_def dw il mo)
  with yr mo show ?thesis unfolding t_def by simp
qed

subsection \<open>The bounds of the payment classification\<close>

text \<open>
  The lower bound is local midnight of the current local day; the upper bound is the
  present instant thirty days on (the time of day is kept).
\<close>

lemma todayDate_eq:
  "todayDate rt = TimeClip (Day (now rt + LocalTZA rt) * msPerDay - LocalTZA rt)"
  by (simp add: todayDate_def setHours_def Date_now_def UTC_def LocalTime_def MakeDate_def
      MakeTime_def)

lemma thirtyDaysFromNow_eq:
  assumes "todayDate rt \<noteq> None"
  shows "thirtyDaysFromNow rt = TimeClip (now rt + 30 * msPerDay)"
proof -
  let ?l = "now rt + LocalTZA rt"
  obtain t where t: "todayDate rt = Some t" using assms by auto
  then have "t = Day ?l * msPerDay - LocalTZA rt"
    by (simp add: todayDate_eq TimeClip_def split: if_splits)
  then have "LocalTime rt t = MakeDate (Day ?l) 0"
    by (simp add: LocalTime_def MakeDate_def)
  then have "Day (LocalTime rt t) = Day ?l"
    by (simp add: Day_MakeDate msPerDay_def)
  then have d: "DateFromTime (t + LocalTZA rt) = DateFromTime ?l"
    unfolding LocalTime_def by (rule DateFromTime_cong)
  have "MakeDate (MakeDay (YearFromTime ?l) (MonthFromTime ?l) (DateFromTime ?l + 30))
          (TimeWithinDay ?l)
        = (Day ?l * msPerDay + TimeWithinDay ?l) + 30 * msPerDay"
    by (simp add: MakeDay_fields MakeDate_def algebra_simps)
  also have "\<dots> = ?l + 30 * msPerDay" by (simp only: Day_split)
  finally show ?thesis
    by (simp add: thirtyDaysFromNow_def setDate_def Date_now_def getDate_def js_plus_def t d
        LocalTime_def UTC_def Let_def)
qed

lemma overdue_iff:
  "p \<in> set (overduePayments rt ps)
     \<longleftrightarrow> p \<in> set ps \<and> status p = ''Pending'' \<and> js_lt (Date_string rt (date p)) (todayDate rt)"
  by (auto simp: overduePayments_def pendingPayments_def set_array_sort)

lemma upcoming_iff:
  "p \<in> set (upcomingPayments rt ps)
     \<longleftrightarrow> p \<in> set ps \<and> status p = ''Pending''
         \<and> js_ge (Date_string rt (date p)) (todayDate rt)
         \<and> js_le (Date_string rt (date p)) (thirtyDaysFromNow rt)"
  by (auto simp: upcomingPayments_def pendingPayments_def set_array_sort Let_def)

text \<open>
  In the time zone UTC a payment dated with a date-only string (midnight UTC of day \<open>k\<close>)
  is classified by its calendar day: due today or up to 30 days ahead it is upcoming, due
  31 days ahead or later it is in neither list, due before today it is overdue.
\<close>

lemma classification_in_UTC:
  assumes utc: "LocalTZA rt = 0"
    and range: "\<bar>now rt\<bar> \<le> 8640000000000000 - 30 * msPerDay"
    and p: "p \<in> set ps" "status p = ''Pending''"
    and d: "Date_string rt (date p) = Some (MakeDate k 0)"
  shows "(k = Day (now rt) \<longrightarrow>
            p \<in> set (upcomingPayments rt ps) \<and> p \<notin> set (overduePayments rt ps))
       \<and> (k = Day (now rt) + 30 \<longrightarrow> p \<in> set (upcomingPayments rt ps))
       \<and> (Day (now rt) + 31 \<le> k \<longrightarrow>
            p \<notin> set (upcomingPayments rt ps) \<and> p \<notin> set (overduePayments rt ps))
       \<and> (k < Day (now rt) \<longrightarrow> p \<in> set (overduePayments rt ps))"
proof -
  let ?n = "now rt" and ?D = "Day (now rt)"
  have lo: "?D * msPerDay \<le> ?n" and hi: "?n < ?D * msPerDay + msPerDay"
    using Day_split [of ?n] by (simp_all add: TimeWithinDay_def msPerDay_def)
  have "\<bar>?D * msPerDay\<bar> \<le> 8640000000000000"
  proof -
    have "- 8640000000000000 \<le> ?n" using range by (simp add: msPerDay_def)
    then have "Day (- 8640000000000000) \<le> ?D"
      unfolding Day_def by (rule zdiv_mono1) (simp add: msPerDay_def)
    then have "- 100000000 \<le> ?D" by (simp add: Day_def msPerDay_def)
    then have "- 100000000 * msPerDay \<le> ?D * msPerDay" by (simp add: msPerDay_def)
    then show ?thesis using lo range by (simp add: msPerDay_def)
  qed
  then have today: "todayDate rt = Some (?D * msPerDay)"
    by (simp add: todayDate_eq utc TimeClip_def)
  have "\<bar>?n + 30 * msPerDay\<bar> \<le> 8640000000000000"
    using range by (simp add: msPerDay_def)
  then have thirty: "thirtyDaysFromNow rt = Some (?n + 30 * msPerDay)"
    by (simp add: thirtyDaysFromNow_eq today TimeClip_def)
  have k1: "k * msPerDay < ?D * msPerDay \<longleftrightarrow> k < ?D"
    and k2: "?D * msPerDay \<le> k * msPerDay \<longleftrightarrow> ?D \<le> k"
    by (simp_all add: msPerDay_def)
  have k3: "k * msPerDay \<le> ?n + 30 * msPerDay \<longleftrightarrow> k \<le> ?D + 30"
  proof
    assume "k * msPerDay \<le> ?n + 30 * msPerDay"
    then have "k * msPerDay < (?D + 31) * msPerDay" using hi by (simp add: algebra_simps)
    then show "k \<le> ?D + 30" by (simp add: msPerDay_def)
  next
    assume "k \<le> ?D + 30"
    then have "k * msPerDay \<le> (?D + 30) * msPerDay" by (simp add: msPerDay_def)
    then show "k * msPerDay \<le> ?n + 30 * msPerDay" using lo by (simp add: algebra_simps)
  qed
  have up: "p \<in> set (upcomingPayments rt ps) \<longleftrightarrow> ?D \<le> k \<and> k \<le> ?D + 30"
    using p k2 k3
    by (simp add: upcoming_iff d today thirty js_ge_def js_le_def MakeDate_def)
  have ov: "p \<in> set (overduePayments rt ps) \<longleftrightarrow> k < ?D"
    using p k1 by (simp add: overdue_iff d today js_lt_def MakeDate_def)
  show ?thesis unfolding up ov by arith
qed

text \<open>
  West of UTC a payment due on the current local day is overdue, at every time of day. East
  of UTC a payment due 30 days after the current local day is in neither list while the
  local time of day is less than the offset of the zone.
\<close>

lemma due_today_west_of_UTC:
  assumes west: "LocalTZA rt < 0"
    and today: "todayDate rt \<noteq> None"
    and p: "p \<in> set ps" "status p = ''Pending''"
    and d: "Date_string rt (date p) = Some (MakeDate (Day (LocalTime rt (now rt))) 0)"
  shows "p \<in> set (overduePayments rt ps) \<and> p \<notin> set (upcomingPayments rt ps)"
proof -
  have "todayDate rt = Some (Day (now rt + LocalTZA rt) * msPerDay - LocalTZA rt)"
    using today by (simp add: todayDate_eq TimeClip_def split: if_splits)
  then have "js_lt (Date_string rt (date p)) (todayDate rt)"
    using west by (simp add: d js_lt_def MakeDate_def LocalTime_def)
  then show ?thesis
    using p js_lt_not_ge by (auto simp: overdue_iff upcoming_iff)
qed

lemma due_in_30_days_east_of_UTC:
  assumes early: "TimeWithinDay (LocalTime rt (now rt)) < LocalTZA rt"
    and today: "todayDate rt \<noteq> None"
    and d: "Date_string rt (date p) = Some (MakeDate (Day (LocalTime rt (now rt)) + 30) 0)"
  shows "p \<notin> set (upcomingPayments rt ps) \<and> p \<notin> set (overduePayments rt ps)"
proof -
  let ?l = "now rt + LocalTZA rt"
  have t: "todayDate rt = Some (Day ?l * msPerDay - LocalTZA rt)"
    using today by (simp add: todayDate_eq TimeClip_def split: if_splits)
  have "0 \<le> TimeWithinDay ?l" by (simp add: TimeWithinDay_def msPerDay_def)
  then have pos: "0 < LocalTZA rt" using early by (simp add: LocalTime_def)
  have l: "now rt = Day ?l * msPerDay + TimeWithinDay ?l - LocalTZA rt"
    using Day_split [of ?l] by simp
  have "now rt + 30 * msPerDay < (Day ?l + 30) * msPerDay"
    using early l by (simp add: LocalTime_def algebra_simps)
  then have "\<not> js_le (Date_string rt (date p)) (thirtyDaysFromNow rt)"
    by (simp add: thirtyDaysFromNow_eq [OF today] d js_le_def MakeDate_def LocalTime_def
        TimeClip_def)
  moreover have "\<not> js_lt (Date_string rt (date p)) (todayDate rt)"
    using pos by (simp add: t d js_lt_def MakeDate_def LocalTime_def algebra_simps msPerDay_def)
  ultimately show ?thesis
    by (simp add: overdue_iff upcoming_iff)
qed

subsection \<open>The ISO date of a time value\<close>

lemma digit_not_T: "n < 10 \<Longrightarrow> ''0123456789'' ! n \<noteq> CHR ''T''"
proof -
  assume "n < 10"
  then have "n \<in> {0, 1, 2, 3, 4, 5, 6, 7, 8, 9}" by auto
  then show ?thesis by auto
qed

lemma digits_no_T: "CHR ''T'' \<notin> set (digits k n)"
proof (induction k arbitrary: n)
  case 0
  show ?case by simp
next
  case (Suc k)
  have "''0123456789'' ! (n mod 10) \<noteq> CHR ''T''"
    by (rule digit_not_T) simp
  with Suc show ?case by auto
qed

lemma takeWhile_digits:
  "takeWhile (\<lambda>c. c \<noteq> CHR ''T'') (digits k n @ s)
     = digits k n @ takeWhile (\<lambda>c. c \<noteq> CHR ''T'') s"
  by (rule takeWhile_append2) (use digits_no_T in metis)

lemma toISODateString_eq:
  "toISODateString t =
     (if 0 \<le> YearFromTime t \<and> YearFromTime t \<le> 9999 then digits 4 (nat (YearFromTime t))
      else (if YearFromTime t < 0 then ''-'' else ''+'') @ digits 6 (nat \<bar>YearFromTime t\<bar>))
     @ ''-'' @ digits 2 (nat (MonthFromTime t + 1))
     @ ''-'' @ digits 2 (nat (DateFromTime t))"
proof -
  let ?P = "\<lambda>c. c \<noteq> CHR ''T''"
  let ?md = "''-'' @ digits 2 (nat (MonthFromTime t + 1)) @ ''-'' @ digits 2 (nat (DateFromTime t))"
  let ?rest = "''T'' @ digits 2 (nat (TimeWithinDay t div 3600000))
         @ '':'' @ digits 2 (nat (TimeWithinDay t div 60000 mod 60))
         @ '':'' @ digits 2 (nat (TimeWithinDay t div 1000 mod 60))
         @ ''.'' @ digits 3 (nat (TimeWithinDay t mod 1000)) @ ''Z''"
  have md: "takeWhile ?P (?md @ ?rest) = ?md"
    using takeWhile_digits [of 2] by (simp del: digits.simps)
  have y: "takeWhile ?P (digits k n @ ?md @ ?rest) = digits k n @ ?md" for k n
    using md takeWhile_digits [of k n "?md @ ?rest"] by (simp del: digits.simps)
  have sg: "takeWhile ?P (c # digits k n @ ?md @ ?rest) = c # digits k n @ ?md"
    if "c \<noteq> CHR ''T''" for c k n
    using y [of k n] that by (simp del: digits.simps)
  show ?thesis
    unfolding toISODateString_def toISOString_def Let_def
    using y [of 4] sg [of "CHR ''-''" 6] sg [of "CHR ''+''" 6]
    by (simp del: digits.simps)
qed

lemma toISODateString_nonempty: "toISODateString t \<noteq> []"
  by (simp add: toISODateString_eq)

subsection \<open>The period\<close>

lemma no_date_in_empty_period:
  assumes "\<not> js_le start end"
  shows "\<not> (js_ge d start \<and> js_le d end)"
  using assms by (auto simp: js_ge_def js_le_def split: option.splits)

lemma inverted_period:
  assumes "parse rt startDate = Some s" "parse rt endDate = Some e" "Day e < Day s"
  shows "\<not> js_le (period_start rt startDate) (period_end rt endDate)"
proof -
  have "Day e + 1 \<le> Day s" using assms(3) by simp
  then have "(Day e + 1) * msPerDay \<le> Day s * msPerDay"
    by (simp add: msPerDay_def)
  then have "Day e * msPerDay + 86399999 < Day s * msPerDay"
    by (simp add: msPerDay_def algebra_simps)
  then show ?thesis
    using assms(1,2)
    by (auto simp: period_start_def period_end_def Date_string_def setUTCHours_def js_le_def
        TimeClip_def MakeDate_def MakeTime_def split: option.splits if_splits)
qed

subsection \<open>The set of active courses\<close>

lemma set_fold_Set_add: "set (fold Set_add cs acc) = set acc \<union> set cs"
  by (induction cs arbitrary: acc) (auto simp: Set_add_def)

lemma distinct_fold_Set_add: "distinct acc \<Longrightarrow> distinct (fold Set_add cs acc)"
  by (induction cs arbitrary: acc) (auto simp: Set_add_def)

lemma set_fold_students:
  "set (fold (\<lambda>student acc. fold Set_add (courseIds student) acc) xs acc)
     = set acc \<union> (\<Union>s \<in> set xs. set (courseIds s))"
  by (induction xs arbitrary: acc) (auto simp: set_fold_Set_add)

lemma distinct_fold_students:
  "distinct acc \<Longrightarrow>
   distinct (fold (\<lambda>student acc. fold Set_add (courseIds student) acc) xs acc)"
  by (induction xs arbitrary: acc) (auto simp: distinct_fold_Set_add)

lemma length_activeCourseIds:
  "length (activeCourseIds xs) = card (\<Union>s \<in> set xs. set (courseIds s))"
proof -
  have "distinct (activeCourseIds xs)"
    unfolding activeCourseIds_def by (rule distinct_fold_students) simp
  moreover have "set (activeCourseIds xs) = (\<Union>s \<in> set xs. set (courseIds s))"
    unfolding activeCourseIds_def by (simp add: set_fold_students)
  ultimately show ?thesis by (metis distinct_card)
qed

subsection \<open>The monthly series\<close>

lemma keys_processItem:
  assumes "distinct (map fst md)"
  shows "distinct (map fst (processItem rt ty item md))"
    and "fst ` set (processItem rt ty item md) = insert (monthOf rt (date item)) (fst ` set md)"
proof -
  let ?m = "monthOf rt (date item)"
  let ?md = "if map_of md ?m = None then AList.update ?m \<lparr>Revenue = 0, Expenses = 0\<rparr> md else md"
  have d: "distinct (map fst ?md)" using assms by (simp add: AList.distinct_update)
  have s: "fst ` set ?md = insert ?m (fst ` set md)"
    by (auto simp: AList.dom_update map_of_eq_None_iff)
  show "distinct (map fst (processItem rt ty item md))"
    unfolding processItem_def Let_def using d by (rule AList.distinct_map_entry)
  show "fst ` set (processItem rt ty item md) = insert ?m (fst ` set md)"
    unfolding processItem_def Let_def using s by (simp only: AList.dom_map_entry)
qed

lemma keys_processItems:
  assumes "distinct (map fst md)"
  shows "distinct (map fst (processItems rt items ty md))
       \<and> fst ` set (processItems rt items ty md)
           = fst ` set md \<union> (\<lambda>i. monthOf rt (date i)) ` set items"
  using assms unfolding processItems_def
proof (induction items arbitrary: md)
  case Nil
  then show ?case by simp
next
  case (Cons i items)
  from Cons.IH [OF keys_processItem(1) [OF Cons.prems, of rt ty i]]
  show ?case by (auto simp: keys_processItem(2) [OF Cons.prems])
qed

lemma Date_string_range: "Date_string rt s = Some v \<Longrightarrow> TimeClip v = Some v"
  by (auto simp: Date_string_def TimeClip_def split: option.splits if_splits)

lemma monthOf_eq:
  assumes t: "Date_string rt d = Some t"
    and y: "YearFromTime t < 0 \<or> 99 < YearFromTime t"
    and c: "TimeClip (localMonthStart rt (calendarMonth t)) = Some (localMonthStart rt (calendarMonth t))"
  shows "monthOf rt d = monthYear rt (localMonthStart rt (calendarMonth t))"
proof -
  have "Date_year_month rt (Some (YearFromTime t)) (Some (MonthFromTime t))
          = TimeClip (localMonthStart rt (calendarMonth t))"
    using y by (auto simp: Date_year_month_def localMonthStart_def MakeDay_calendarMonth)
  then show ?thesis
    by (simp add: monthOf_def t getUTCFullYear_def getUTCMonth_def c toLocaleString_def)
qed

lemma names_of_chartData:
  "map name (map (\<lambda>(month, tot). \<lparr>Revenue = Revenue tot, Expenses = Expenses tot, name = month\<rparr>) md)
     = map fst md"
  by (induction md) auto

text \<open>
  Where every date is valid with a year outside 0 to 99, and \<open>Date.parse\<close> reads each month
  label the run time produces as local midnight of the first of that month, the series has
  one bucket for each calendar month of the items, in the order of the months.
\<close>

lemma monthly_series_chronological:
  fixes payments :: "FeePayment list" and expensesList :: "Expense list"
  assumes valid: "\<forall>d \<in> set (map date payments @ map date expensesList).
                    Date_string rt d = Some (tv d)"
    and years: "\<forall>d \<in> set (map date payments @ map date expensesList).
                  YearFromTime (tv d) < 0 \<or> 99 < YearFromTime (tv d)"
    and labels: "\<forall>d \<in> set (map date payments @ map date expensesList).
                  Date_string rt (monthYear rt (localMonthStart rt (calendarMonth (tv d))))
                    = Some (localMonthStart rt (calendarMonth (tv d)))"
  shows "map name (processMonthlyData rt payments expensesList)
           = map (\<lambda>n. monthYear rt (localMonthStart rt n))
               (sorted_list_of_set
                  ((\<lambda>d. calendarMonth (tv d)) ` set (map date payments @ map date expensesList)))"
proof -
  define ds where "ds = map date payments @ map date expensesList"
  define M where "M = (\<lambda>d. calendarMonth (tv d)) ` set ds"
  define lab where "lab = (\<lambda>n. monthYear rt (localMonthStart rt n))"
  define key where "key = (\<lambda>c::ChartPoint. Date_string rt (name c))"
  define res where "res = processMonthlyData rt payments expensesList"
  define md where "md = processItems rt expensesList ExpensesSeries
                          (processItems rt payments RevenueSeries [])"
  define g where "g = the_inv_into M lab"
  have finM: "finite M" by (simp add: M_def)
  have mo: "monthOf rt d = lab (calendarMonth (tv d))" if "d \<in> set ds" for d
    unfolding lab_def
  proof (rule monthOf_eq)
    show "Date_string rt d = Some (tv d)" using that valid unfolding ds_def by blast
    show "YearFromTime (tv d) < 0 \<or> 99 < YearFromTime (tv d)"
      using that years unfolding ds_def by blast
    have "Date_string rt (monthYear rt (localMonthStart rt (calendarMonth (tv d))))
            = Some (localMonthStart rt (calendarMonth (tv d)))"
      using that labels unfolding ds_def by blast
    then show "TimeClip (localMonthStart rt (calendarMonth (tv d)))
        = Some (localMonthStart rt (calendarMonth (tv d)))"
      by (rule Date_string_range)
  qed
  have rb: "key c = Some (localMonthStart rt n)" if "n \<in> M" "name c = lab n" for n c
  proof -
    from that(1) obtain d where "d \<in> set ds" "n = calendarMonth (tv d)"
      unfolding M_def by blast
    then show ?thesis using labels that(2) unfolding ds_def key_def lab_def by simp
  qed
  have inj: "inj_on lab M"
  proof (rule inj_onI)
    fix n n' assume n: "n \<in> M" "n' \<in> M" and eq: "lab n = lab n'"
    have "localMonthStart rt n = localMonthStart rt n'"
      using rb [OF n(1), of "\<lparr>Revenue = 0, Expenses = 0, name = lab n\<rparr>"]
        rb [OF n(2), of "\<lparr>Revenue = 0, Expenses = 0, name = lab n\<rparr>"] eq
      by simp
    then have "\<not> n < n'" "\<not> n' < n"
      using localMonthStart_less_iff [of rt n n'] localMonthStart_less_iff [of rt n' n]
      by simp_all
    then show "n = n'" by linarith
  qed
  \<comment> \<open>the keys of \<open>monthlyData\<close> are the labels of the months of the items\<close>
  have k1: "distinct (map fst (processItems rt payments RevenueSeries []))"
    "fst ` set (processItems rt payments RevenueSeries [])
       = (\<lambda>i. monthOf rt (date i)) ` set payments"
    using keys_processItems [of "[]" rt payments RevenueSeries] by simp_all
  have k2: "distinct (map fst md)"
    "fst ` set md = (\<lambda>i. monthOf rt (date i)) ` set payments
                      \<union> (\<lambda>i. monthOf rt (date i)) ` set expensesList"
    unfolding md_def
    using keys_processItems [OF k1(1), of rt expensesList ExpensesSeries] k1(2) by simp_all
  have "fst ` set md = monthOf rt ` set ds"
    unfolding k2(2) ds_def by (simp add: image_Un image_image)
  also have "\<dots> = lab ` M"
    unfolding M_def image_image by (rule image_cong) (simp_all add: mo)
  finally have keys: "set (map fst md) = lab ` M" by simp
  have res: "res = array_sort (byName rt)
      (map (\<lambda>(month, tot). \<lparr>Revenue = Revenue tot, Expenses = Expenses tot, name = month\<rparr>) md)"
    by (simp add: res_def md_def processMonthlyData_def Let_def)
  have names: "set (map name res) = lab ` M"
    unfolding res by (simp only: set_map set_array_sort)
      (simp only: set_map [symmetric] names_of_chartData keys)
  have dist: "distinct (map name res)"
    unfolding res by (simp only: distinct_map_array_sort names_of_chartData k2(1))
  \<comment> \<open>each bucket has the start of its month as sort key\<close>
  have gM: "g (name c) \<in> M" and lg: "lab (g (name c)) = name c"
    and kv: "key c = Some (localMonthStart rt (g (name c)))" if "c \<in> set res" for c
  proof -
    have "name c \<in> set (map name res)" using that by simp
    then have "name c \<in> lab ` M" by (simp only: names)
    then obtain n where n: "n \<in> M" "name c = lab n" by (rule imageE)
    have gl: "g (lab n) = n" unfolding g_def using inj n(1) by (rule the_inv_into_f_f)
    show "g (name c) \<in> M" unfolding n(2) gl by (rule n(1))
    show "lab (g (name c)) = name c" unfolding n(2) gl by (rule refl)
    have "key c = Some (localMonthStart rt n)" using n by (rule rb)
    then show "key c = Some (localMonthStart rt (g (name c)))" unfolding n(2) gl .
  qed
  have "sorted_wrt (\<lambda>a b. js_le (key a) (key b)) res"
    unfolding res
  proof (rule sorted_array_sort_key)
    show "byName rt a b = js_minus (key a) (key b)" for a b
      by (simp add: byName_def key_def)
    have "key y \<noteq> None" if "y \<in> set res" for y
      using kv [OF that] by simp
    then show "\<forall>y \<in> set (map (\<lambda>(month, tot).
                \<lparr>Revenue = Revenue tot, Expenses = Expenses tot, name = month\<rparr>) md).
            key y \<noteq> None"
      unfolding res by (simp only: set_array_sort) blast
  qed
  then have srt: "sorted_wrt (\<lambda>a b. g (name a) \<le> g (name b)) res"
  proof (rule sorted_wrt_mono_rel [rotated])
    fix a b assume "a \<in> set res" "b \<in> set res" "js_le (key a) (key b)"
    then show "g (name a) \<le> g (name b)"
      using kv [of a] kv [of b] by (simp add: js_le_def localMonthStart_le_iff)
  qed
  define months where "months = map (\<lambda>c. g (name c)) res"
  have s1: "sorted months" unfolding months_def using srt by (simp add: sorted_wrt_map)
  have s2: "set months = M"
  proof
    show "set months \<subseteq> M" unfolding months_def using gM by auto
    show "M \<subseteq> set months"
    proof
      fix n assume n: "n \<in> M"
      then have "lab n \<in> set (map name res)" by (simp only: names) (rule imageI)
      then obtain c where c: "c \<in> set res" "name c = lab n" by auto
      have "g (lab n) = n" unfolding g_def using inj n by (rule the_inv_into_f_f)
      then have "g (name c) = n" by (simp only: c(2))
      then show "n \<in> set months" unfolding months_def using c(1) by force
    qed
  qed
  have s3: "distinct months"
  proof -
    have "inj_on g (lab ` M)"
      unfolding g_def using inj by (rule inj_on_the_inv_into)
    then have "inj_on g (set (map name res))" by (simp only: names)
    then have "distinct (map g (map name res))"
      using dist by (simp only: distinct_map simp_thms)
    then show ?thesis by (simp add: months_def o_def)
  qed
  have "months = sorted_list_of_set M"
    using s1 s2 s3 by (metis sorted_list_of_set.idem_if_sorted_distinct)
  then have "map lab (sorted_list_of_set M) = map lab months" by simp
  also have "\<dots> = map name res" unfolding months_def using lg by (simp add: o_def)
  finally show ?thesis
    by (simp only: res_def lab_def M_def ds_def)
qed

subsection \<open>The sample run times, evaluated\<close>

lemma now_india: "now india = 1718011800000" "LocalTZA india = 19800000"
  by code_simp+

lemma now_bogota: "now bogota = 1718031600000" "LocalTZA bogota = - 18000000"
  by code_simp+

lemma now_india_night: "now india_night = 1717965000000" "LocalTZA india_night = 19800000"
  by code_simp+

lemma parse_samples:
  "parseISODate ''2024-01-01'' = Some 1704067200000"
  "parseISODate ''2024-03-15'' = Some 1710460800000"
  "parseISODate ''2024-05-20'' = Some 1716163200000"
  "parseISODate ''2024-06-01'' = Some 1717200000000"
  "parseISODate ''2024-06-09'' = Some 1717891200000"
  "parseISODate ''2024-06-10'' = Some 1717977600000"
  "parseISODate ''2024-06-25'' = Some 1719273600000"
  "parseISODate ''2024-08-01'' = Some 1722470400000"
  by code_simp+

lemma parse_july: "parseISODate ''2024-07-10'' = Some 1720569600000"
  by code_simp

lemma parse_browser: "parseISODate s = Some v \<Longrightarrow> parse (browser tza t) s = Some v"
  by (simp add: browser_def)

lemmas parse_india = parse_samples [THEN parse_browser, of 19800000 "utc 2024 6 10 9 30",
    folded india_def]

lemmas parse_bogota = parse_samples [THEN parse_browser, of "- 18000000" "utc 2024 6 10 15 0",
    folded bogota_def]

lemma today_india: "todayDate india = Some 1717957800000"
  by (simp add: todayDate_eq now_india Day_def msPerDay_def TimeClip_def)

lemma thirty_india: "thirtyDaysFromNow india = Some 1720603800000"
  by (simp add: thirtyDaysFromNow_eq today_india now_india msPerDay_def TimeClip_def)

lemma today_bogota: "todayDate bogota = Some 1717995600000"
  by (simp add: todayDate_eq now_bogota Day_def msPerDay_def TimeClip_def)

lemma thirty_bogota: "thirtyDaysFromNow bogota = Some 1720623600000"
  by (simp add: thirtyDaysFromNow_eq today_bogota now_bogota msPerDay_def TimeClip_def)

lemma today_india_night: "todayDate india_night = Some 1717957800000"
  by (simp add: todayDate_eq now_india_night Day_def msPerDay_def TimeClip_def)

lemma thirty_india_night: "thirtyDaysFromNow india_night = Some 1720557000000"
  by (simp add: thirtyDaysFromNow_eq today_india_night now_india_night msPerDay_def TimeClip_def)

lemma today_string_india: "toISODateString (now india) = ''2024-06-10''"
  by code_simp

lemma Date_string_india:
  "Date_string india ''2024-01-01'' = Some 1704067200000"
  "Date_string india ''2024-03-15'' = Some 1710460800000"
  "Date_string india ''2024-05-20'' = Some 1716163200000"
  "Date_string india ''2024-06-01'' = Some 1717200000000"
  "Date_string india ''2024-06-09'' = Some 1717891200000"
  "Date_string india ''2024-06-10'' = Some 1717977600000"
  "Date_string india ''2024-06-25'' = Some 1719273600000"
  "Date_string india ''2024-08-01'' = Some 1722470400000"
  by (simp_all add: Date_string_def parse_india TimeClip_def)

lemma Date_string_bogota: "Date_string bogota ''2024-06-10'' = Some 1717977600000"
  by (simp add: Date_string_def parse_bogota TimeClip_def)

lemma Date_string_india_night:
  "Date_string india_night ''2024-07-10'' = Some 1720569600000"
  "Date_string india_night ''2024-06-09'' = Some 1717891200000"
  by (simp_all add: Date_string_def india_night_def parse_browser parse_july parse_samples
      TimeClip_def)

lemma local_dates:
  "toISODateString (now bogota) = ''2024-06-10''"
  "toISODateString (LocalTime bogota (now bogota)) = ''2024-06-10''"
  "toISODateString (now india_night) = ''2024-06-09''"
  "toISODateString (LocalTime india_night (now india_night)) = ''2024-06-10''"
  by code_simp+

lemma overdue_india:
  "overduePayments india samplePayments
     = [payment ''F6'' ''2024-05-20'' ''Pending'' 800, payment ''F4'' ''2024-06-01'' ''Pending'' 1000]"
  by (simp add: overduePayments_def pendingPayments_def samplePayments_def payment_def
      array_sort_def SortCompare_def byDate_def js_minus_def getTime_def js_lt_def
      Date_string_india today_india)

lemma upcoming_india:
  "upcomingPayments india samplePayments
     = [payment ''F2'' ''2024-06-10'' ''Pending'' 2500, payment ''F1'' ''2024-06-25'' ''Pending'' 1500]"
  by (simp add: upcomingPayments_def pendingPayments_def samplePayments_def payment_def
      array_sort_def SortCompare_def byDate_def js_minus_def getTime_def js_ge_def js_le_def
      Date_string_india today_india thirty_india)

lemma period_india:
  "period_start india ''2024-01-01'' = Some 1704067200000"
  "period_start india ''2024-06-10'' = Some 1717977600000"
  "period_end india ''2024-01-01'' = Some 1704153599999"
  "period_end india ''2024-06-09'' = Some 1717977599999"
  "period_end india ''2024-06-10'' = Some 1718063999999"
  by (simp_all add: period_start_def period_end_def Date_string_india setUTCHours_def Day_def
      MakeDate_def MakeTime_def msPerDay_def TimeClip_def)

lemma newAdmissions_india:
  "newAdmissions india (period_start india ''2024-01-01'') (period_end india ''2024-06-10'')
     sampleStudents = sampleStudents"
  by (simp add: newAdmissions_def sampleStudents_def or_else_def today_string_india
      Date_string_india period_india js_ge_def js_le_def)

lemma years_apart:
  "getUTCFullYear (Date_string india ''0050-01-15'') = Some 50"
  "getUTCMonth (Date_string india ''0050-01-15'') = Some 0"
  "getUTCFullYear (Date_string india ''1950-01-15'') = Some 1950"
  "getUTCMonth (Date_string india ''1950-01-15'') = Some 0"
  by code_simp+

lemma monthOf_india:
  "monthOf india ''0050-01-15'' = ''Jan 1950''"
  "monthOf india ''1950-01-15'' = ''Jan 1950''"
  "monthOf india ''2024-03-15'' = ''Mar 2024''"
  "monthOf india ''2025-01-10'' = ''Jan 2025''"
  "monthOf india ''2024-02-11'' = ''Feb 2024''"
  by code_simp+

lemma label_india:
  "Date_string india ''Mar 2024'' = Some 1709231400000"
  "Date_string india ''Jan 2025'' = Some 1735669800000"
  "Date_string india ''Feb 2024'' = Some 1706725800000"
  by code_simp+

lemma interleaved_months_in_order:
  "processMonthlyData india
     [payment ''F1'' ''2025-01-10'' ''Paid'' 100, payment ''F2'' ''2024-03-15'' ''Paid'' 5000,
      payment ''F3'' ''2025-01-10'' ''Paid'' 200]
     [\<lparr>ident = ''E1'', amount = 2000, date = ''2024-03-15''\<rparr>,
      \<lparr>ident = ''E2'', amount = 7, date = ''2024-02-11''\<rparr>]
   = [\<lparr>Revenue = 0, Expenses = 7, name = ''Feb 2024''\<rparr>,
      \<lparr>Revenue = 5000, Expenses = 2000, name = ''Mar 2024''\<rparr>,
      \<lparr>Revenue = 300, Expenses = 0, name = ''Jan 2025''\<rparr>]"
  by (simp add: processMonthlyData_def processItems_def processItem_def payment_def
      monthOf_india addTo_def array_sort_def SortCompare_def byName_def js_minus_def label_india)

lemma months_example:
  "calendarMonth (readISO ''2025-01-10'') = 24300"
  "calendarMonth (readISO ''2024-03-15'') = 24290"
  "calendarMonth (readISO ''2024-02-11'') = 24289"
  "99 < YearFromTime (readISO ''2025-01-10'')"
  "99 < YearFromTime (readISO ''2024-03-15'')"
  "99 < YearFromTime (readISO ''2024-02-11'')"
  by code_simp+

lemma valid_example:
  "Date_string india ''2025-01-10'' = Some (readISO ''2025-01-10'')"
  "Date_string india ''2024-03-15'' = Some (readISO ''2024-03-15'')"
  "Date_string india ''2024-02-11'' = Some (readISO ''2024-02-11'')"
  by code_simp+

lemma labels_example:
  "localMonthStart india 24300 = 1735669800000"
  "localMonthStart india 24290 = 1709231400000"
  "localMonthStart india 24289 = 1706725800000"
  "monthYear india 1735669800000 = ''Jan 2025''"
  "monthYear india 1709231400000 = ''Mar 2024''"
  "monthYear india 1706725800000 = ''Feb 2024''"
  by code_simp+

lemma sorted_example: "sorted_list_of_set {24289, 24290, 24300 :: int} = [24289, 24290, 24300]"
  by code_simp

lemma monthly_series_chronological_example:
  "map name (processMonthlyData india
     [payment ''F1'' ''2025-01-10'' ''Paid'' 100, payment ''F2'' ''2024-03-15'' ''Paid'' 5000,
      payment ''F3'' ''2025-01-10'' ''Paid'' 200]
     [\<lparr>ident = ''E1'', amount = 2000, date = ''2024-03-15''\<rparr>,
      \<lparr>ident = ''E2'', amount = 7, date = ''2024-02-11''\<rparr>])
   = [''Feb 2024'', ''Mar 2024'', ''Jan 2025'']"
proof -
  let ?P = "[payment ''F1'' ''2025-01-10'' ''Paid'' 100, payment ''F2'' ''2024-03-15'' ''Paid'' 5000,
      payment ''F3'' ''2025-01-10'' ''Paid'' 200]"
  let ?E = "[\<lparr>ident = ''E1'', amount = 2000, date = ''2024-03-15''\<rparr>,
      \<lparr>ident = ''E2'', amount = 7, date = ''2024-02-11''\<rparr>]"
  have m: "(\<lambda>d. calendarMonth (readISO d)) ` set (map date ?P @ map date ?E)
             = {24289, 24290, 24300}"
    by (auto simp: payment_def months_example)
  have "map name (processMonthlyData india ?P ?E)
          = map (\<lambda>n. monthYear india (localMonthStart india n)) (sorted_list_of_set
              ((\<lambda>d. calendarMonth (readISO d)) ` set (map date ?P @ map date ?E)))"
    by (rule monthly_series_chronological)
      (simp_all add: payment_def months_example valid_example labels_example label_india)
  then show ?thesis
    by (simp only: m sorted_example) (simp add: labels_example)
qed

lemma wide_period:
  "period_start india ''0050-01-01'' = Some (- 60589296000000)"
  "period_end india ''1950-12-31'' = Some (- 599616000001)"
  "Date_string india ''0050-01-15'' = Some (- 60588086400000)"
  "Date_string india ''1950-01-15'' = Some (- 629942400000)"
  by code_simp+


section \<open>The claims\<close>

text \<open>
  Claim C1. For payments and expenses whose dates span N calendar months,
  \<open>processMonthlyData\<close> returns N buckets in the order of the months. The code does not do
  this for every input: \<open>new Date(year, month)\<close> reads a year from 0 to 99 as 1900 to 1999,
  so a payment of January 0050 and a payment of January 1950, two calendar months, share
  the one bucket \<open>Jan 1950\<close>, also in the chart of a render whose period holds both.
  (For years outside 0 to 99, and a run time that reads its own month labels, the claim
  holds: lemma \<open>monthly_series_chronological\<close>.)
\<close>
theorem two_digit_year_shares_bucket:
  "getUTCFullYear (Date_string india ''0050-01-15'') = Some 50
   \<and> getUTCFullYear (Date_string india ''1950-01-15'') = Some 1950
   \<and> processMonthlyData india
       [payment ''F1'' ''0050-01-15'' ''Paid'' 5000, payment ''F2'' ''1950-01-15'' ''Paid'' 700] []
     = [\<lparr>Revenue = 5700, Expenses = 0, name = ''Jan 1950''\<rparr>]
   \<and> chartData (DashboardView india ''0050-01-01'' ''1950-12-31'' [] [] [] []
       [payment ''F1'' ''0050-01-15'' ''Paid'' 5000, payment ''F2'' ''1950-01-15'' ''Paid'' 700] [])
     = [\<lparr>Revenue = 5700, Expenses = 0, name = ''Jan 1950''\<rparr>]"
proof -
  have "processMonthlyData india
       [payment ''F1'' ''0050-01-15'' ''Paid'' 5000, payment ''F2'' ''1950-01-15'' ''Paid'' 700] []
     = [\<lparr>Revenue = 5700, Expenses = 0, name = ''Jan 1950''\<rparr>]"
    by (simp add: processMonthlyData_def processItems_def processItem_def payment_def
        monthOf_india addTo_def array_sort_def)
  moreover have "paidPayments (filteredData india ''0050-01-01'' ''1950-12-31'' [] [] [] []
       [payment ''F1'' ''0050-01-15'' ''Paid'' 5000, payment ''F2'' ''1950-01-15'' ''Paid'' 700] [])
     = [payment ''F1'' ''0050-01-15'' ''Paid'' 5000, payment ''F2'' ''1950-01-15'' ''Paid'' 700]"
    by (simp add: filteredData_def paidPaymentsIn_def payment_def wide_period js_ge_def
        js_le_def Let_def)
  moreover have "allExpenses (filteredData india ''0050-01-01'' ''1950-12-31'' [] [] [] []
       [payment ''F1'' ''0050-01-15'' ''Paid'' 5000, payment ''F2'' ''1950-01-15'' ''Paid'' 700] [])
     = []"
    by (simp add: filteredData_def allExpensesIn_def Let_def)
  ultimately show ?thesis
    by (simp add: years_apart DashboardView_def Let_def)
qed

text \<open>
  Claim C2. A pending payment due today is upcoming and not overdue; one due in exactly 30
  days is upcoming; one due in 31 days or more is in neither list; one due before today is
  overdue. The code compares the due date, which is midnight UTC of the day, with local
  midnight and with the present local time of day thirty days on, so the claim fails
  outside the zone UTC. Five hours west of UTC at 10:00 on 10 June 2024 (the date is
  10 June in UTC too), a payment due on 10 June is listed overdue and not upcoming. In
  India at 02:00 on 10 June 2024, a payment due 30 days later, on 10 July, is in neither
  list. (In the zone UTC the claim holds: lemma \<open>classification_in_UTC\<close>.)
\<close>
theorem due_today_is_listed_overdue:
  "toISODateString (now bogota) = ''2024-06-10''
   \<and> toISODateString (LocalTime bogota (now bogota)) = ''2024-06-10''
   \<and> overduePayments bogota [payment ''F2'' ''2024-06-10'' ''Pending'' 2500]
       = [payment ''F2'' ''2024-06-10'' ''Pending'' 2500]
   \<and> upcomingPayments bogota [payment ''F2'' ''2024-06-10'' ''Pending'' 2500] = []
   \<and> toISODateString (LocalTime india_night (now india_night)) = ''2024-06-10''
   \<and> upcomingPayments india_night [payment ''F7'' ''2024-07-10'' ''Pending'' 700] = []
   \<and> overduePayments india_night [payment ''F7'' ''2024-07-10'' ''Pending'' 700] = []"
  by (simp add: local_dates overduePayments_def upcomingPayments_def pendingPayments_def
      payment_def array_sort_def js_lt_def js_ge_def js_le_def Date_string_bogota
      Date_string_india_night today_bogota thirty_bogota today_india_night thirty_india_night)


text \<open>
  Claim C3. Whatever the payments and whatever the clock, the time zone and the date parser,
  no payment is both in the overdue list and in the upcoming list.
\<close>
theorem overdue_upcoming_disjoint:
  "set (overduePayments rt feePayments) \<inter> set (upcomingPayments rt feePayments) = {}"
  by (auto simp: overduePayments_def upcomingPayments_def set_array_sort Let_def
      dest: js_lt_not_ge)

text \<open>
  Claim C4. The overdue list and the upcoming list hold only payments whose status is
  \<open>Pending\<close>, and in each list every payment is due no later than the payments after it.
\<close>
theorem risk_lists_pending_and_sorted:
  "(\<forall>p \<in> set (overduePayments rt feePayments). status p = ''Pending'')
   \<and> (\<forall>p \<in> set (upcomingPayments rt feePayments). status p = ''Pending'')
   \<and> sorted_wrt (dueBefore rt) (overduePayments rt feePayments)
   \<and> sorted_wrt (dueBefore rt) (upcomingPayments rt feePayments)"
proof -
  have d: "dueBefore rt = (\<lambda>a b. js_le (Date_string rt (date a)) (Date_string rt (date b)))"
    by (intro ext) (simp add: dueBefore_def)
  have c: "byDate rt a b = js_minus (Date_string rt (date a)) (Date_string rt (date b))"
    for a b
    by (simp add: byDate_def getTime_def)
  have "sorted_wrt (dueBefore rt) (overduePayments rt feePayments)"
    unfolding overduePayments_def d
    by (rule sorted_array_sort_key [OF c]) (auto simp: js_lt_def split: option.splits)
  moreover have "sorted_wrt (dueBefore rt) (upcomingPayments rt feePayments)"
    unfolding upcomingPayments_def d
    by (rule sorted_array_sort_key [OF c])
      (auto simp: js_ge_def js_le_def Let_def split: option.splits)
  ultimately show ?thesis
    by (auto simp: overduePayments_def upcomingPayments_def set_array_sort pendingPayments_def)
qed

theorem risk_lists_pending_and_sorted_witness:
  "overduePayments india samplePayments
     = [payment ''F6'' ''2024-05-20'' ''Pending'' 800, payment ''F4'' ''2024-06-01'' ''Pending'' 1000]
   \<and> upcomingPayments india samplePayments
     = [payment ''F2'' ''2024-06-10'' ''Pending'' 2500, payment ''F1'' ''2024-06-25'' ''Pending'' 1500]
   \<and> list_all (\<lambda>p. status p = ''Pending'') (overduePayments india samplePayments)
   \<and> list_all (\<lambda>p. status p = ''Pending'') (upcomingPayments india samplePayments)
   \<and> sorted_wrt (dueBefore india) (overduePayments india samplePayments)
   \<and> sorted_wrt (dueBefore india) (upcomingPayments india samplePayments)"
  using risk_lists_pending_and_sorted [of india samplePayments]
  by (simp add: overdue_india upcoming_india list_all_iff)

text \<open>
  Claim C5. The overdue and upcoming lists of a render do not depend on the selected period:
  two renders that differ only in \<open>startDate\<close> and \<open>endDate\<close> show the same lists, namely
  the classification of the whole collection of fee payments.
\<close>
theorem risk_lists_independent_of_period:
  "overdue (DashboardView rt startDate endDate students staff batches leads feePayments expensesList)
     = overdue (DashboardView rt startDate' endDate' students staff batches leads feePayments expensesList)
   \<and> upcoming (DashboardView rt startDate endDate students staff batches leads feePayments expensesList)
     = upcoming (DashboardView rt startDate' endDate' students staff batches leads feePayments expensesList)
   \<and> overdue (DashboardView rt startDate endDate students staff batches leads feePayments expensesList)
     = overduePayments rt feePayments
   \<and> upcoming (DashboardView rt startDate endDate students staff batches leads feePayments expensesList)
     = upcomingPayments rt feePayments"
  by (simp add: DashboardView_def Let_def)

text \<open>
  Claim C6. A student whose admission date is absent (\<open>undefined\<close>, or the empty string)
  passes the admission filter exactly when the date parsed from today's ISO date string
  lies between the bounds of the period, and is counted exactly as the same student with
  today's ISO date as admission date would be. Today is the UTC calendar date of the clock
  reading, as \<open>toISOString\<close> gives it.
\<close>
theorem absent_admission_date_is_today:
  assumes "admissionDate st = None \<or> admissionDate st = Some []"
  shows "(st \<in> set (newAdmissions rt start end students))
           = (st \<in> set students
              \<and> js_ge (Date_string rt (toISODateString (now rt))) start
              \<and> js_le (Date_string rt (toISODateString (now rt))) end)
       \<and> length (newAdmissions rt start end [st])
           = length (newAdmissions rt start end
                       [st\<lparr>admissionDate := Some (toISODateString (now rt))\<rparr>])"
  using assms toISODateString_nonempty [of "now rt"]
  by (auto simp: newAdmissions_def Let_def or_else_def)

theorem absent_admission_date_is_today_witness:
  "toISODateString (now india) = ''2024-06-10''
   \<and> \<lparr>student_id = ''S3'', student_name = ''Meena'', admissionDate = None, courseIds = [''C1'']\<rparr>
       \<in> set (newAdmissions india (period_start india ''2024-01-01'')
                (period_end india ''2024-06-10'') sampleStudents)
   \<and> \<lparr>student_id = ''S3'', student_name = ''Meena'', admissionDate = None, courseIds = [''C1'']\<rparr>
       \<notin> set (newAdmissions india (period_start india ''2024-01-01'')
                (period_end india ''2024-06-09'') sampleStudents)"
proof -
  let ?s = "\<lparr>student_id = ''S3'', student_name = ''Meena'', admissionDate = None,
              courseIds = [''C1'']\<rparr>"
  have a: "admissionDate ?s = None \<or> admissionDate ?s = Some []" by simp
  have m: "?s \<in> set sampleStudents" by (simp add: sampleStudents_def)
  show ?thesis
    using absent_admission_date_is_today [OF a, of india "period_start india ''2024-01-01''"
        "period_end india ''2024-06-10''" sampleStudents]
      absent_admission_date_is_today [OF a, of india "period_start india ''2024-01-01''"
        "period_end india ''2024-06-09''" sampleStudents]
    by (simp add: m today_string_india Date_string_india period_india js_ge_def js_le_def)
qed


text \<open>
  Claim C7. When the start date of the period is a later calendar day than its end date,
  the aggregation returns, without failing, the snapshot of all zeros: every filter gives
  the empty list, the sums are zero and the chart has no bucket.
\<close>
theorem inverted_period_is_empty:
  assumes "parse rt startDate = Some s" and "parse rt endDate = Some e" and "Day e < Day s"
  shows "filteredData rt startDate endDate students staff batches leads feePayments expensesList
         = \<lparr> newAdmissionsCount = 0, newHiresCount = 0, activeCoursesCount = 0,
             newBatchesCount = 0, newLeadsCount = 0, revenue = 0, expenses = 0,
             paidPayments = [], allExpenses = [] \<rparr>
       \<and> newAdmissions rt (period_start rt startDate) (period_end rt endDate) students = []
       \<and> newHires rt (period_start rt startDate) (period_end rt endDate) staff = []
       \<and> newBatches rt (period_start rt startDate) (period_end rt endDate) batches = []
       \<and> newLeads rt (period_start rt startDate) (period_end rt endDate) leads = []
       \<and> chartData (DashboardView rt startDate endDate students staff batches leads
                      feePayments expensesList) = []"
proof -
  let ?s = "period_start rt startDate" and ?e = "period_end rt endDate"
  have none: "\<not> (js_ge d ?s \<and> js_le d ?e)" for d
    by (rule no_date_in_empty_period) (rule inverted_period [OF assms])
  have a: "newAdmissions rt ?s ?e students = []"
    unfolding newAdmissions_def Let_def using none by (simp add: filter_empty_conv)
  have h: "newHires rt ?s ?e staff = []"
    unfolding newHires_def Let_def using none by (simp add: filter_empty_conv)
  have b: "newBatches rt ?s ?e batches = []"
    unfolding newBatches_def Let_def using none by (simp add: filter_empty_conv)
  have l: "newLeads rt ?s ?e leads = []"
    unfolding newLeads_def Let_def using none by (simp add: filter_empty_conv)
  have p: "paidPaymentsIn rt ?s ?e feePayments = []"
    unfolding paidPaymentsIn_def Let_def using none by (simp add: filter_empty_conv)
  have x: "allExpensesIn rt ?s ?e expensesList = []"
    unfolding allExpensesIn_def Let_def using none by (simp add: filter_empty_conv)
  have fd: "filteredData rt startDate endDate students staff batches leads feePayments
              expensesList
         = \<lparr> newAdmissionsCount = 0, newHiresCount = 0, activeCoursesCount = 0,
             newBatchesCount = 0, newLeadsCount = 0, revenue = 0, expenses = 0,
             paidPayments = [], allExpenses = [] \<rparr>"
    by (simp add: filteredData_def Let_def a h b l p x activeCourseIds_def)
  have "chartData (DashboardView rt startDate endDate students staff batches leads feePayments
          expensesList) = []"
    by (simp add: DashboardView_def Let_def fd processMonthlyData_def processItems_def
        array_sort_def)
  with fd a h b l show ?thesis by simp
qed

theorem inverted_period_is_empty_witness:
  "filteredData india ''2024-06-10'' ''2024-01-01'' sampleStudents sampleStaff sampleBatches
     sampleLeads samplePayments sampleExpenses
   = \<lparr> newAdmissionsCount = 0, newHiresCount = 0, activeCoursesCount = 0,
       newBatchesCount = 0, newLeadsCount = 0, revenue = 0, expenses = 0,
       paidPayments = [], allExpenses = [] \<rparr>
   \<and> chartData (DashboardView india ''2024-06-10'' ''2024-01-01'' sampleStudents sampleStaff
                  sampleBatches sampleLeads samplePayments sampleExpenses) = []"
proof -
  have "Day 1704067200000 < Day 1717977600000"
    by (simp add: Day_def msPerDay_def)
  from inverted_period_is_empty [OF parse_india(6) parse_india(1) this]
  show ?thesis by simp
qed

text \<open>
  Claim C8. \<open>activeCoursesCount\<close> is the number of elements of the union of the course
  identifiers of the students that pass the admission filter: a course that several
  admitted students reference is counted once.
\<close>
theorem activeCoursesCount_counts_each_course_once:
  "activeCoursesCount (filteredData rt startDate endDate students staff batches leads
                         feePayments expensesList)
   = card (\<Union>s \<in> set (newAdmissions rt (period_start rt startDate) (period_end rt endDate)
                        students). set (courseIds s))"
  by (simp add: filteredData_def Let_def length_activeCourseIds)

theorem activeCoursesCount_counts_each_course_once_witness:
  "activeCoursesCount (filteredData india ''2024-01-01'' ''2024-06-10'' sampleStudents
                         sampleStaff sampleBatches sampleLeads samplePayments sampleExpenses)
   = 3
   \<and> (\<Union>s \<in> set sampleStudents. set (courseIds s)) = {''C1'', ''C2'', ''C3''}"
proof -
  have u: "(\<Union>s \<in> set sampleStudents. set (courseIds s)) = {''C1'', ''C2'', ''C3''}"
    by (auto simp: sampleStudents_def)
  have "card {''C1'', ''C2'', ''C3''} = 3" by simp
  with u show ?thesis
    using activeCoursesCount_counts_each_course_once [of india "''2024-01-01''" "''2024-06-10''"
        sampleStudents sampleStaff sampleBatches sampleLeads samplePayments sampleExpenses]
    by (simp only: newAdmissions_india simp_thms)
qed

text \<open>
  Claim C9. A click on a header cell whose header is not marked sortable (\<open>sortable\<close> is
  \<open>false\<close> or absent) calls no callback, for every list of headers and every sort state.
\<close>
theorem unsortable_header_requests_no_sort:
  assumes "i < length headers" and "sortable (headers ! i) \<noteq> Some True"
  shows "click (Table_thead headers sortConfig) i = []"
  using assms by (simp add: click_def Table_thead_def renderHeader_def truthy_def)

theorem unsortable_header_requests_no_sort_witness:
  "click (Table_thead sampleHeaders None) 0 = [requestSort ''name'']
   \<and> click (Table_thead sampleHeaders None) 1 = []
   \<and> click (Table_thead sampleHeaders None) 2 = []
   \<and> click (Table_thead sampleHeaders (Some \<lparr>sort_key = ''phone'', sort_direction = ascending\<rparr>)) 1
       = []"
proof -
  have l: "1 < length sampleHeaders" "2 < length sampleHeaders"
    by (simp_all add: sampleHeaders_def)
  have s: "sortable (sampleHeaders ! 1) \<noteq> Some True" "sortable (sampleHeaders ! 2) \<noteq> Some True"
    by (simp_all add: sampleHeaders_def)
  have "click (Table_thead sampleHeaders None) 0 = [requestSort ''name'']"
    by (simp add: click_def Table_thead_def renderHeader_def truthy_def sampleHeaders_def)
  with unsortable_header_requests_no_sort [OF l(1) s(1)]
    unsortable_header_requests_no_sort [OF l(2) s(2)]
  show ?thesis by simp
qed

text \<open>
  Claim C10. A staff member, a batch or a lead whose date is absent passes its filter for
  no period: the absent date becomes an invalid \<open>Date\<close>, and no comparison with it holds.
  (Claim C6 is the contrasting case of a student.)
\<close>
theorem absent_dates_are_excluded:
  "(joiningDate s = None \<longrightarrow> s \<notin> set (newHires rt start end staff))
   \<and> (batch_startDate b = None \<longrightarrow> b \<notin> set (newBatches rt start end batches))
   \<and> (enquiryDate l = None \<longrightarrow> l \<notin> set (newLeads rt start end leads))"
  by (simp add: newHires_def newBatches_def newLeads_def Date_value_def js_ge_def js_le_def)

theorem absent_dates_are_excluded_witness:
  "newHires india (period_start india ''2024-01-01'') (period_end india ''2024-06-10'')
     sampleStaff = [\<lparr>staff_id = ''T2'', joiningDate = Some ''2024-03-15''\<rparr>]
   \<and> newBatches india (period_start india ''2024-01-01'') (period_end india ''2024-06-10'')
     sampleBatches = [\<lparr>batch_id = ''B2'', batch_startDate = Some ''2024-06-01''\<rparr>]
   \<and> newLeads india (period_start india ''2024-01-01'') (period_end india ''2024-06-10'')
     sampleLeads = [\<lparr>lead_id = ''L2'', enquiryDate = Some ''2024-05-20''\<rparr>]
   \<and> \<lparr>staff_id = ''T1'', joiningDate = None\<rparr>
       \<notin> set (newHires india (period_start india ''2024-01-01'')
                (period_end india ''2024-06-10'') sampleStaff)
   \<and> \<lparr>batch_id = ''B1'', batch_startDate = None\<rparr>
       \<notin> set (newBatches india (period_start india ''2024-01-01'')
                (period_end india ''2024-06-10'') sampleBatches)
   \<and> \<lparr>lead_id = ''L1'', enquiryDate = None\<rparr>
       \<notin> set (newLeads india (period_start india ''2024-01-01'')
                (period_end india ''2024-06-10'') sampleLeads)"
proof -
  have "newHires india (period_start india ''2024-01-01'') (period_end india ''2024-06-10'')
     sampleStaff = [\<lparr>staff_id = ''T2'', joiningDate = Some ''2024-03-15''\<rparr>]"
    by (simp add: newHires_def sampleStaff_def Date_value_def Date_string_india period_india
        js_ge_def js_le_def)
  moreover have "newBatches india (period_start india ''2024-01-01'')
     (period_end india ''2024-06-10'') sampleBatches
       = [\<lparr>batch_id = ''B2'', batch_startDate = Some ''2024-06-01''\<rparr>]"
    by (simp add: newBatches_def sampleBatches_def Date_value_def Date_string_india period_india
        js_ge_def js_le_def)
  moreover have "newLeads india (period_start india ''2024-01-01'')
     (period_end india ''2024-06-10'') sampleLeads
       = [\<lparr>lead_id = ''L2'', enquiryDate = Some ''2024-05-20''\<rparr>]"
    by (simp add: newLeads_def sampleLeads_def Date_value_def Date_string_india period_india
        js_ge_def js_le_def)
  ultimately show ?thesis
    using absent_dates_are_excluded [of "\<lparr>staff_id = ''T1'', joiningDate = None\<rparr>" india
        "period_start india ''2024-01-01''" "period_end india ''2024-06-10''" sampleStaff
        "\<lparr>batch_id = ''B1'', batch_startDate = None\<rparr>" sampleBatches
        "\<lparr>lead_id = ''L1'', enquiryDate = None\<rparr>" sampleLeads]
    by simp
qed

end
